theory Spec2Isabelle
  imports Complex_Main "HOL-Library.Word"
begin

unbundle bit_operations_syntax

section \<open>Outcomes of a call\<close>

text \<open>
  A C++ call of this program either returns, or runs into behaviour the language leaves
  undefined (an index outside a vector, a null pointer dereferenced, a buffer overrun),
  or never returns. The three are kept apart: \<open>None\<close> is a call that does not return,
  \<open>Some (Inl e)\<close> is undefined behaviour \<open>e\<close>, \<open>Some (Inr v)\<close> is a return with \<open>v\<close>.
\<close>

datatype error = OutOfRange | NullDeref | BufferOverrun

type_synonym 'a outcome = "(error + 'a) option"

section \<open>Vector3.h\<close>

text \<open>
  \<^verbatim>\<open>float x, y, z\<close>. The components are modelled as real numbers: rounding, infinities
  and NaN are outside the model. The selectors are \<open>vx\<close>, \<open>vy\<close>, \<open>vz\<close>, since
  \<open>x\<close>, \<open>y\<close>, \<open>z\<close> are wanted as variables. The constructor's defaults give the zero
  vector.
\<close>

datatype Vector3 = Vector3 (vx: real) (vy: real) (vz: real)

definition Vector3_default :: Vector3 where
  "Vector3_default = Vector3 0 0 0"

text \<open>
  An operator that assigns to \<^verbatim>\<open>*this\<close> returns the pair of its result and the new
  \<^verbatim>\<open>*this\<close>; an operator that only reads returns its result.
\<close>

definition op_plus :: "Vector3 \<Rightarrow> Vector3 \<Rightarrow> Vector3" where
  "op_plus this vec = Vector3 (vx vec + vx this) (vy vec + vy this) (vz vec + vz this)"

definition op_plus_assign :: "Vector3 \<Rightarrow> Vector3 \<Rightarrow> Vector3 \<times> Vector3" where
  "op_plus_assign this vec = (let r = op_plus this vec in (r, r))"

definition op_minus :: "Vector3 \<Rightarrow> Vector3 \<Rightarrow> Vector3" where
  "op_minus this vec = Vector3 (vx this - vx vec) (vy this - vy vec) (vz this - vz vec)"

definition op_minus_assign :: "Vector3 \<Rightarrow> Vector3 \<Rightarrow> Vector3 \<times> Vector3" where
  "op_minus_assign this vec = (let r = op_minus this vec in (r, r))"

text \<open>
  \<^verbatim>\<open>Vector3 operator*(float num) { return (*this = (*this * num)); }\<close>
  The inner \<^verbatim>\<open>*this * num\<close> has a \<^verbatim>\<open>float\<close> argument, so overload resolution picks
  \<^verbatim>\<open>operator*(float)\<close> again (the cross product would need a conversion): the operator
  calls itself before it assigns. \<^verbatim>\<open>operator/(float)\<close> is written the same way.
\<close>

partial_function (option) op_mult :: "Vector3 \<Rightarrow> real \<Rightarrow> (Vector3 \<times> Vector3) option" where
  "op_mult this num =
     Option.bind (op_mult this num) (\<lambda>(r, this'). Some (r, r))"

definition op_mult_assign :: "Vector3 \<Rightarrow> real \<Rightarrow> Vector3 \<times> Vector3" where
  "op_mult_assign this num = (Vector3 (vx this * num) (vy this * num) (vz this * num), this)"

partial_function (option) op_div :: "Vector3 \<Rightarrow> real \<Rightarrow> (Vector3 \<times> Vector3) option" where
  "op_div this num =
     Option.bind (op_div this num) (\<lambda>(r, this'). Some (r, r))"

definition op_div_assign :: "Vector3 \<Rightarrow> real \<Rightarrow> Vector3 \<times> Vector3" where
  "op_div_assign this num = (Vector3 (vx this / num) (vy this / num) (vz this / num), this)"

definition op_neg :: "Vector3 \<Rightarrow> Vector3" where
  "op_neg this = Vector3 (- vx this) (- vy this) (- vz this)"

definition Dot :: "Vector3 \<Rightarrow> Vector3 \<Rightarrow> real" where
  "Dot this vec = vx this * vx vec + vy this * vy vec + vz this * vz vec"

definition op_cross :: "Vector3 \<Rightarrow> Vector3 \<Rightarrow> Vector3" where
  "op_cross this vec =
     Vector3 (vy this * vz vec - vz this * vy vec)
             (vz this * vx vec - vx this * vz vec)
             (vx this * vy vec - vy this * vx vec)"

definition Length :: "Vector3 \<Rightarrow> real" where
  "Length this = sqrt (vx this * vx this + vy this * vy this + vz this * vz this)"

definition Normalize :: "Vector3 \<Rightarrow> Vector3 \<times> Vector3" where
  "Normalize this =
     (let length = Length this;
          this' = Vector3 (vx this / length) (vy this / length) (vz this / length)
      in (this', this'))"

definition Distance :: "Vector3 \<Rightarrow> Vector3 \<Rightarrow> real" where
  "Distance this vec =
     (let disX = vx vec - vx this; disY = vy vec - vy this; disZ = vz vec - vz this
      in sqrt (disX * disX + disY * disY + disZ * disZ))"

definition op_eq :: "Vector3 \<Rightarrow> Vector3 \<Rightarrow> bool" where
  "op_eq this vec = (vx vec = vx this \<and> vy vec = vy this \<and> vz vec = vz this)"

definition op_neq :: "Vector3 \<Rightarrow> Vector3 \<Rightarrow> bool" where
  "op_neq this vec = (\<not> op_eq vec this)"

section \<open>The files the loaders read\<close>

text \<open>
  A text file is the list of its lines. A line is its characters together with the values
  that the \<^verbatim>\<open>float\<close> extractions made on it parse, in order, up to the first one that
  fails, and with the way that one fails: \<open>malformed\<close> says that it meets characters that
  are not a number, and otherwise it meets the end of the line. Reading decimal text into
  a \<^verbatim>\<open>float\<close> is the library's work and is not modelled. Everything else the loaders do
  with a line (the first word, names, the references of a face) is computed from the
  characters. A file that can be opened has its lines, for the text readers, and its
  bytes, for the image reader.
\<close>

record line =
  chars :: string
  floats :: "real list"
  malformed :: bool

record disk_file =
  lines :: "line list"
  bytes :: "8 word list"

type_synonym filesystem = "string \<Rightarrow> disk_file option"

section \<open>The string stream of a line\<close>

text \<open>
  \<^verbatim>\<open>std::istringstream\<close>, as far as the loaders use it: the buffer, the read position
  and the three state bits. The operations follow the C++11 library: a failed sentry sets
  \<^verbatim>\<open>failbit\<close> and leaves the target alone, a numeric extraction that finds no number
  stores zero, \<^verbatim>\<open>unget\<close> clears \<^verbatim>\<open>eofbit\<close> first.
\<close>

record istringstream =
  buf :: string
  gpos :: nat
  eofbit :: bool
  failbit :: bool
  badbit :: bool

definition istringstream_new :: "string \<Rightarrow> istringstream" where
  "istringstream_new s = \<lparr>buf = s, gpos = 0, eofbit = False, failbit = False, badbit = False\<rparr>"

definition good :: "istringstream \<Rightarrow> bool" where
  "good s = (\<not> eofbit s \<and> \<not> failbit s \<and> \<not> badbit s)"

definition fail :: "istringstream \<Rightarrow> bool" where
  "fail s = (failbit s \<or> badbit s)"

definition at_end :: "istringstream \<Rightarrow> bool" where
  "at_end s = (length (buf s) \<le> gpos s)"

definition unread :: "istringstream \<Rightarrow> string" where
  "unread s = drop (gpos s) (buf s)"

definition isspace :: "char \<Rightarrow> bool" where
  "isspace c = (c \<in> set [CHR '' '', CHR 0x09, CHR 0x0A, CHR 0x0B, CHR 0x0C, CHR 0x0D])"

definition isdigit :: "char \<Rightarrow> bool" where
  "isdigit c = (c \<in> set ''0123456789'')"

definition skip_space :: "istringstream \<Rightarrow> istringstream" where
  "skip_space s = s\<lparr>gpos := gpos s + length (takeWhile isspace (unread s))\<rparr>"

text \<open>\<^verbatim>\<open>is >> std::ws\<close>: reaching the end sets \<^verbatim>\<open>eofbit\<close> only.\<close>

definition ws :: "istringstream \<Rightarrow> istringstream" where
  "ws s =
     (if \<not> good s then s\<lparr>failbit := True\<rparr>
      else let s' = skip_space s
           in if at_end s' then s'\<lparr>eofbit := True\<rparr> else s')"

text \<open>The sentry of a formatted extraction: skips white space, fails at the end.\<close>

definition sentry :: "istringstream \<Rightarrow> bool \<times> istringstream" where
  "sentry s =
     (if \<not> good s then (False, s\<lparr>failbit := True\<rparr>)
      else let s' = skip_space s
           in if at_end s' then (False, s'\<lparr>eofbit := True, failbit := True\<rparr>)
              else (True, s'))"

text \<open>\<^verbatim>\<open>is >> str\<close> for a \<^verbatim>\<open>std::string\<close>: the target is kept when the sentry fails.\<close>

definition extract_string :: "istringstream \<Rightarrow> string \<Rightarrow> string \<times> istringstream" where
  "extract_string s str =
     (case sentry s of
        (False, s') \<Rightarrow> (str, s')
      | (True, s') \<Rightarrow>
          let w = takeWhile (\<lambda>c. \<not> isspace c) (unread s');
              s'' = s'\<lparr>gpos := gpos s' + length w\<rparr>
          in (w, if at_end s'' then s''\<lparr>eofbit := True\<rparr> else s''))"

definition digit_value :: "char \<Rightarrow> int" where
  "digit_value c = int (of_char c) - 48"

definition INT_MAX :: int where
  "INT_MAX = 2147483647"

definition INT_MIN :: int where
  "INT_MIN = - 2147483648"

text \<open>
  \<^verbatim>\<open>is >> n\<close> for an \<^verbatim>\<open>int\<close>: an optional sign and decimal digits. Without a digit the
  target becomes 0 and \<^verbatim>\<open>failbit\<close> is set; a value out of range is clamped, with
  \<^verbatim>\<open>failbit\<close>; a failed sentry leaves the target as it was.
\<close>

definition extract_int :: "istringstream \<Rightarrow> int \<Rightarrow> int \<times> istringstream" where
  "extract_int s n =
     (case sentry s of
        (False, s') \<Rightarrow> (n, s')
      | (True, s') \<Rightarrow>
          let cs = unread s';
              sign = takeWhile (\<lambda>c. c = CHR ''+'' \<or> c = CHR ''-'') (take 1 cs);
              ds = takeWhile isdigit (drop (length sign) cs);
              s'' = s'\<lparr>gpos := gpos s' + length sign + length ds\<rparr>;
              s3 = (if at_end s'' then s''\<lparr>eofbit := True\<rparr> else s'');
              m = foldl (\<lambda>a c. 10 * a + digit_value c) 0 ds;
              v = (if sign = ''-'' then - m else m)
          in if ds = [] then (0, s3\<lparr>failbit := True\<rparr>)
             else if INT_MAX < v then (INT_MAX, s3\<lparr>failbit := True\<rparr>)
             else if v < INT_MIN then (INT_MIN, s3\<lparr>failbit := True\<rparr>)
             else (v, s3))"

text \<open>\<^verbatim>\<open>is.get(c)\<close>: the target is kept when nothing is read.\<close>

definition get :: "istringstream \<Rightarrow> char \<Rightarrow> char \<times> istringstream" where
  "get s c =
     (if \<not> good s then (c, s\<lparr>failbit := True\<rparr>)
      else if at_end s then (c, s\<lparr>eofbit := True, failbit := True\<rparr>)
      else (buf s ! gpos s, s\<lparr>gpos := Suc (gpos s)\<rparr>))"

definition unget :: "istringstream \<Rightarrow> istringstream" where
  "unget s =
     (let s' = s\<lparr>eofbit := False\<rparr>
      in if \<not> good s' then s'\<lparr>failbit := True\<rparr>
         else if gpos s' = 0 then s'\<lparr>badbit := True\<rparr>
         else s'\<lparr>gpos := gpos s' - 1\<rparr>)"

text \<open>
  A later state of the same stream: the buffer is the same, the read position has not
  gone back and is within the buffer, and a failure has stayed.
\<close>

definition follows :: "istringstream \<Rightarrow> istringstream \<Rightarrow> bool" where
  "follows s s' =
     (buf s' = buf s \<and> gpos s \<le> gpos s' \<and> gpos s' \<le> length (buf s) \<and>
      (fail s \<longrightarrow> fail s'))"

text \<open>
  \<^verbatim>\<open>newLine >> a >> b >> c\<close> into \<^verbatim>\<open>float\<close> targets: \<open>ps\<close> are the values parsed before the
  first failure, \<open>ts\<close> the targets' old values. An extraction that meets characters
  that are not a number (\<open>bad\<close>) stores 0; one that meets the end of the line fails in
  its sentry and keeps the target. The extractions after the failing one do nothing.
\<close>

fun extract_floats :: "bool \<Rightarrow> real list \<Rightarrow> real list \<Rightarrow> real list" where
  "extract_floats bad ps [] = []"
| "extract_floats bad [] (t # ts) = (if bad then 0 else t) # ts"
| "extract_floats bad (p # ps) (t # ts) = p # extract_floats bad ps ts"

text \<open>
  \<^verbatim>\<open>istr.getline(line, 256)\<close> fails, and ends the reading loop, at a line of more than
  255 characters.
\<close>

definition getline_ok :: "line \<Rightarrow> bool" where
  "getline_ok l = (length (chars l) \<le> 255)"

text \<open>
  The directory of a path, as both loaders compute it: the path is copied into
  \<^verbatim>\<open>char path[256]\<close> and cleared from its end down to the last \<^verbatim>\<open>/\<close> or \<^verbatim>\<open>\\<close>. A path
  of 256 characters or more overruns the buffer, and a path with neither separator makes
  the loop run below \<^verbatim>\<open>path[0]\<close>.
\<close>

definition is_separator :: "char \<Rightarrow> bool" where
  "is_separator c = (c = CHR 0x5C \<or> c = CHR ''/'')"

definition directory_of :: "string \<Rightarrow> error + string" where
  "directory_of filename =
     (if 256 \<le> length filename then Inl BufferOverrun
      else if \<not> (\<exists>c \<in> set filename. is_separator c) then Inl OutOfRange
      else Inr (rev (dropWhile (\<lambda>c. \<not> is_separator c) (rev filename))))"

text \<open>
  Three extractions into the components of a fresh vector:
  \<^verbatim>\<open>Vector3 *vertex = new Vector3; newLine >> vertex->x >> vertex->y >> vertex->z;\<close>
\<close>

definition read_Vector3 :: "line \<Rightarrow> Vector3" where
  "read_Vector3 l =
     (let c = extract_floats (malformed l) (floats l)
                [vx Vector3_default, vy Vector3_default, vz Vector3_default]
      in Vector3 (c ! 0) (c ! 1) (c ! 2))"

section \<open>Texture.h, Texture.cpp\<close>

text \<open>
  \<^verbatim>\<open>imageData\<close> is null, or points to freed memory, or points to the pixel bytes. The
  fields the constructor does not set hold no value (\<open>None\<close>) until \<^verbatim>\<open>loadTGA\<close> assigns
  them. The static list \<^verbatim>\<open>Texture::textures\<close> and the release of memory are outside the
  model.
\<close>

datatype pixels = Null | Dangling | Pixels "8 word list"

record Texture =
  imageData :: pixels
  bpp :: "32 word option"
  width :: "32 word option"
  height :: "32 word option"
  texID :: "nat option"
  tex_name :: string

text \<open>
  \<^verbatim>\<open>struct TGA_Header\<close>: eight bytes, four \<^verbatim>\<open>GLshort\<close> and a byte, 18 bytes with the
  padding that aligns the shorts; the shorts are read low byte first.
\<close>

record TGA_Header =
  ID_Length :: "8 word"
  ColorMapByte :: "8 word"
  ImageType :: "8 word"
  ColorMapSpecification :: "8 word list"
  xOrigin :: "16 word"
  yOrigin :: "16 word"
  ImageWidth :: "16 word"
  ImageHeight :: "16 word"
  PixelDepth :: "8 word"

definition sizeof_TGA_Header :: nat where
  "sizeof_TGA_Header = 18"

definition GLshort_of :: "8 word \<Rightarrow> 8 word \<Rightarrow> 16 word" where
  "GLshort_of lo hi = push_bit 8 (ucast hi) OR ucast lo"

definition read_TGA_Header :: "8 word list \<Rightarrow> TGA_Header option" where
  "read_TGA_Header bs =
     (if length bs < sizeof_TGA_Header then None
      else Some \<lparr>ID_Length = bs ! 0, ColorMapByte = bs ! 1, ImageType = bs ! 2,
                 ColorMapSpecification = take 5 (drop 3 bs),
                 xOrigin = GLshort_of (bs ! 8) (bs ! 9),
                 yOrigin = GLshort_of (bs ! 10) (bs ! 11),
                 ImageWidth = GLshort_of (bs ! 12) (bs ! 13),
                 ImageHeight = GLshort_of (bs ! 14) (bs ! 15),
                 PixelDepth = bs ! 16\<rparr>)"

text \<open>
  The graphics device: the images uploaded so far. \<^verbatim>\<open>createTexture\<close> takes a fresh
  texture name and uploads the buffer with the width and height it is given as \<^verbatim>\<open>int\<close>.
\<close>

datatype gl_format = GL_RGB | GL_RGBA

record gl_image =
  gl_type :: gl_format
  gl_width :: int
  gl_height :: int
  gl_data :: "8 word list"

type_synonym device = "gl_image list"

definition createTexture ::
  "Texture \<Rightarrow> device \<Rightarrow> 8 word list \<Rightarrow> int \<Rightarrow> int \<Rightarrow> gl_format \<Rightarrow> bool \<times> Texture \<times> device" where
  "createTexture this dev data w h type =
     (True, this\<lparr>texID := Some (Suc (length dev))\<rparr>,
      dev @ [\<lparr>gl_type = type, gl_width = w, gl_height = h, gl_data = data\<rparr>])"

text \<open>
  \<^verbatim>\<open>for (GLuint i = 0; i < (int)imageSize; i += bytesPerPixel) {
      GLuint temp = imageData[i];
      imageData[i] = imageData[i+2];
      imageData[i+1] = temp; }\<close>
  The comparison is unsigned. The buffer has \<open>imageSize\<close> bytes; an index past them is
  undefined behaviour.
\<close>

partial_function (option) swap_loop ::
  "32 word \<Rightarrow> 32 word \<Rightarrow> 32 word \<Rightarrow> 8 word list \<Rightarrow> (8 word list) outcome" where
  "swap_loop i imageSize bytesPerPixel d =
     (if i < imageSize then
        (if unat (i + 2) < length d \<and> unat (i + 1) < length d \<and> unat i < length d then
           let temp = d ! unat i;
               d1 = d[unat i := d ! unat (i + 2)];
               d2 = d1[unat (i + 1) := temp]
           in swap_loop (i + bytesPerPixel) imageSize bytesPerPixel d2
         else Some (Inl OutOfRange))
      else Some (Inr d))"

definition loadTGA ::
  "filesystem \<Rightarrow> string \<Rightarrow> Texture \<Rightarrow> device \<Rightarrow> (bool \<times> Texture \<times> device) outcome" where
  "loadTGA fs filename this dev =
     (case fs filename of
        None \<Rightarrow> Some (Inr (False, this, dev))
      | Some f \<Rightarrow>
          (case read_TGA_Header (bytes f) of
             None \<Rightarrow> Some (Inr (False, this, dev))
           | Some TGAheader \<Rightarrow>
               if ImageType TGAheader \<noteq> 2 then Some (Inr (False, this, dev))
               else
                 let w = (scast (ImageWidth TGAheader) :: 32 word);
                     h = (scast (ImageHeight TGAheader) :: 32 word);
                     b = (ucast (PixelDepth TGAheader) :: 32 word);
                     this1 = this\<lparr>width := Some w, height := Some h, bpp := Some b\<rparr>
                 in if w \<le> 0 \<or> h \<le> 0 \<or> (b \<noteq> 24 \<and> b \<noteq> 32)
                    then Some (Inr (False, this1, dev))
                    else
                      let type = (if b = 24 then GL_RGB else GL_RGBA);
                          bytesPerPixel = b div 8;
                          imageSize = w * h * bytesPerPixel;
                          payload = drop sizeof_TGA_Header (bytes f)
                      in if length payload < unat imageSize
                         then Some (Inr (False, this1\<lparr>imageData := Dangling\<rparr>, dev))
                         else
                           (case swap_loop 0 imageSize bytesPerPixel
                                   (take (unat imageSize) payload) of
                              None \<Rightarrow> None
                            | Some (Inl e) \<Rightarrow> Some (Inl e)
                            | Some (Inr d) \<Rightarrow>
                                (case createTexture (this1\<lparr>imageData := Pixels d\<rparr>) dev d
                                        (sint w) (sint h) type of
                                   (ok, this2, dev2) \<Rightarrow> Some (Inr (True, this2, dev2))))))"

declare swap_loop.simps [code]

text \<open>
  The constructor sets \<^verbatim>\<open>imageData = NULL\<close>, calls \<^verbatim>\<open>loadTGA\<close> and ignores what it
  returns. \<open>Texture_init\<close> is the object before the call.
\<close>

definition Texture_init :: Texture where
  "Texture_init =
     \<lparr>imageData = Null, bpp = None, width = None, height = None, texID = None, tex_name = []\<rparr>"


definition Texture_new ::
  "filesystem \<Rightarrow> string \<Rightarrow> string \<Rightarrow> device \<Rightarrow> (Texture \<times> device) outcome" where
  "Texture_new fs in_filename in_name dev =
     (case loadTGA fs in_filename Texture_init dev of
        None \<Rightarrow> None
      | Some (Inl e) \<Rightarrow> Some (Inl e)
      | Some (Inr (ok, this', dev')) \<Rightarrow> Some (Inr (this'\<lparr>tex_name := in_name\<rparr>, dev')))"

section \<open>Model.h\<close>

text \<open>
  A pointer into one of the model's vectors is the index of the element it points to:
  the vectors only grow while a file is loaded, so an index names the same element
  throughout. A null pointer is \<open>None\<close>. The colours are the four floats of the arrays.
\<close>

record Material =
  Ka :: "real list"
  Kd :: "real list"
  Ks :: "real list"
  Ke :: "real list"
  shininess :: real
  alpha :: real
  illum :: real
  ambientMap :: "Texture option"
  diffuseMap :: "Texture option"
  specularMap :: "Texture option"
  emissionMap :: "Texture option"
  shininessMap :: "Texture option"
  transparencyMap :: "Texture option"
  bumpMap :: "Texture option"
  name :: string

definition Material_new :: Material where
  "Material_new =
     \<lparr>Ka = [0, 0, 0, 1], Kd = [1, 1, 1, 1], Ks = [0, 0, 0, 1], Ke = [0, 0, 0, 1],
      shininess = 2, alpha = 1, illum = 1,
      ambientMap = None, diffuseMap = None, specularMap = None, emissionMap = None,
      shininessMap = None, transparencyMap = None, bumpMap = None, name = []\<rparr>"

text \<open>
  \<^verbatim>\<open>numVertices\<close>, \<^verbatim>\<open>numNormals\<close> and \<^verbatim>\<open>numUVWs\<close> are the lengths of the three lists.
\<close>

record Face =
  face_vertices :: "nat list"
  face_normals :: "nat list"
  face_UVWs :: "nat list"
  material :: "nat option"
  faceCenter :: Vector3
  faceNormal :: Vector3

definition Face_new :: Face where
  "Face_new =
     \<lparr>face_vertices = [], face_normals = [], face_UVWs = [], material = None,
      faceCenter = Vector3_default, faceNormal = Vector3_default\<rparr>"

record GroupObject =
  faces :: "Face list"
  objectName :: string
  groupName :: string

definition GroupObject_new :: GroupObject where
  "GroupObject_new = \<lparr>faces = [], objectName = [], groupName = []\<rparr>"

text \<open>
  \<^verbatim>\<open>radius\<close> and \<^verbatim>\<open>boundingPoints\<close> are \<open>None\<close> when they hold values computed from
  variables that were never assigned (a load without any vertex).
\<close>

record Model =
  objects :: "GroupObject list"
  vertices :: "Vector3 list"
  normals :: "Vector3 list"
  UVWs :: "Vector3 list"
  materials :: "Material list"
  boundingPoints :: "Vector3 list option"
  radius :: "real option"
  center :: Vector3
  objectLoaded :: bool
  displayList :: nat
  filename :: string

definition deleteObjects :: "Model \<Rightarrow> Model" where
  "deleteObjects this =
     this\<lparr>UVWs := [], normals := [], vertices := [], objects := [], materials := []\<rparr>"

section \<open>Model::loadMaterials\<close>

text \<open>The model, the device, and the local \<^verbatim>\<open>Material *material\<close>.\<close>

record mtl_state =
  mtl_model :: Model
  mtl_gl :: device
  mtl_material :: "nat option"

text \<open>An assignment through \<^verbatim>\<open>material->\<close>; the pointer is null before the first \<^verbatim>\<open>newmtl\<close>.\<close>

definition through_material :: "mtl_state \<Rightarrow> (Material \<Rightarrow> Material) \<Rightarrow> mtl_state outcome" where
  "through_material st f =
     (case mtl_material st of
        None \<Rightarrow> Some (Inl NullDeref)
      | Some i \<Rightarrow>
          Some (Inr (st\<lparr>mtl_model := (mtl_model st)
                         \<lparr>materials := (materials (mtl_model st))
                                         [i := f (materials (mtl_model st) ! i)]\<rparr>\<rparr>)))"

text \<open>
  The seven \<^verbatim>\<open>map_\<close> branches: the file name is read, a Texture is constructed from
  \<^verbatim>\<open>path + filename_temp\<close>, and the pointer to it is stored in the material's slot.
\<close>

definition load_map ::
  "filesystem \<Rightarrow> string \<Rightarrow> istringstream \<Rightarrow> mtl_state \<Rightarrow>
   (Texture \<Rightarrow> Material \<Rightarrow> Material) \<Rightarrow> mtl_state outcome" where
  "load_map fs path newLine st store =
     (let filename_temp = fst (extract_string newLine [])
      in case Texture_new fs (path @ filename_temp) [] (mtl_gl st) of
           None \<Rightarrow> None
         | Some (Inl e) \<Rightarrow> Some (Inl e)
         | Some (Inr (map', gl')) \<Rightarrow> through_material (st\<lparr>mtl_gl := gl'\<rparr>) (store map'))"

definition material_line ::
  "filesystem \<Rightarrow> string \<Rightarrow> line \<Rightarrow> mtl_state \<Rightarrow> mtl_state outcome" where
  "material_line fs path l st =
     (let (firstWord, newLine) = extract_string (istringstream_new (chars l)) []
      in if firstWord = ''newmtl'' then
           Some (Inr (st\<lparr>mtl_material := Some (length (materials (mtl_model st))),
                         mtl_model := (mtl_model st)
                           \<lparr>materials := materials (mtl_model st) @
                              [Material_new\<lparr>name := fst (extract_string newLine [])\<rparr>]\<rparr>\<rparr>))
         else if firstWord = ''illum'' then
           through_material st (\<lambda>m. m\<lparr>illum := hd (extract_floats (malformed l) (floats l) [illum m])\<rparr>)
         else if firstWord = ''Ka'' then
           through_material st
             (\<lambda>m. m\<lparr>Ka := extract_floats (malformed l) (floats l) (take 3 (Ka m)) @ drop 3 (Ka m)\<rparr>)
         else if firstWord = ''Kd'' then
           through_material st
             (\<lambda>m. m\<lparr>Kd := extract_floats (malformed l) (floats l) (take 3 (Kd m)) @ drop 3 (Kd m)\<rparr>)
         else if firstWord = ''Ks'' then
           through_material st
             (\<lambda>m. m\<lparr>Ks := extract_floats (malformed l) (floats l) (take 3 (Ks m)) @ drop 3 (Ks m)\<rparr>)
         else if firstWord = ''Ke'' then
           through_material st
             (\<lambda>m. m\<lparr>Ke := extract_floats (malformed l) (floats l) (take 3 (Ke m)) @ drop 3 (Ke m)\<rparr>)
         else if firstWord = ''Ns'' then
           through_material st
             (\<lambda>m. m\<lparr>shininess := hd (extract_floats (malformed l) (floats l) [shininess m])\<rparr>)
         else if firstWord = ''d'' \<or> firstWord = ''Tr'' then
           through_material st (\<lambda>m. m\<lparr>alpha := hd (extract_floats (malformed l) (floats l) [alpha m])\<rparr>)
         else if firstWord = ''Tf'' then
           (let color = read_Vector3 l
            in through_material st (\<lambda>m. m\<lparr>alpha := (vx color + vy color + vz color) / 3\<rparr>))
         else if firstWord = ''map_Ka'' then
           load_map fs path newLine st (\<lambda>map' m. m\<lparr>ambientMap := Some map'\<rparr>)
         else if firstWord = ''map_Kd'' then
           load_map fs path newLine st (\<lambda>map' m. m\<lparr>diffuseMap := Some map'\<rparr>)
         else if firstWord = ''map_Ks'' then
           load_map fs path newLine st (\<lambda>map' m. m\<lparr>specularMap := Some map'\<rparr>)
         else if firstWord = ''map_Ke'' then
           load_map fs path newLine st (\<lambda>map' m. m\<lparr>emissionMap := Some map'\<rparr>)
         else if firstWord = ''map_Ns'' then
           load_map fs path newLine st (\<lambda>map' m. m\<lparr>shininessMap := Some map'\<rparr>)
         else if firstWord = ''map_d'' then
           load_map fs path newLine st (\<lambda>map' m. m\<lparr>transparencyMap := Some map'\<rparr>)
         else if firstWord = ''map_Bump'' then
           load_map fs path newLine st (\<lambda>map' m. m\<lparr>bumpMap := Some map'\<rparr>)
         else Some (Inr st))"

text \<open>\<^verbatim>\<open>while (istr.getline(line, 256)) { ... }\<close>\<close>

fun material_lines ::
  "filesystem \<Rightarrow> string \<Rightarrow> line list \<Rightarrow> mtl_state \<Rightarrow> mtl_state outcome" where
  "material_lines fs path [] st = Some (Inr st)"
| "material_lines fs path (l # ls) st =
     (if \<not> getline_ok l then Some (Inr st)
      else case material_line fs path l st of
             None \<Rightarrow> None
           | Some (Inl e) \<Rightarrow> Some (Inl e)
           | Some (Inr st') \<Rightarrow> material_lines fs path ls st')"

definition loadMaterials ::
  "filesystem \<Rightarrow> string \<Rightarrow> Model \<Rightarrow> device \<Rightarrow> (Model \<times> device) outcome" where
  "loadMaterials fs in_filename this gl =
     (case fs in_filename of
        None \<Rightarrow> Some (Inr (this, gl))
      | Some f \<Rightarrow>
          (case directory_of in_filename of
             Inl e \<Rightarrow> Some (Inl e)
           | Inr path \<Rightarrow>
               (case material_lines fs path (lines f)
                       \<lparr>mtl_model = this, mtl_gl = gl, mtl_material = None\<rparr> of
                  None \<Rightarrow> None
                | Some (Inl e) \<Rightarrow> Some (Inl e)
                | Some (Inr st) \<Rightarrow> Some (Inr (mtl_model st, mtl_gl st)))))"

section \<open>Model::loadObject\<close>

text \<open>
  The state of the reading loop: the model, the device, and the locals
  \<^verbatim>\<open>defaultObject\<close>, \<^verbatim>\<open>currentGroup\<close>, \<^verbatim>\<open>currentMaterial\<close> and \<^verbatim>\<open>temp\<close>. The
  character \<^verbatim>\<open>temp\<close> is declared without a value in the loop over a face's references and
  is compared even when no character could be read into it; the model gives it the value
  it last held, and an arbitrary one (\<open>junk\<close>) at the start.
\<close>

record obj_state =
  model :: Model
  gl :: device
  defaultObject :: nat
  currentGroup :: nat
  currentMaterial :: "nat option"
  temp :: char

text \<open>
  \<^verbatim>\<open>for (int i = 0; i < (int)materials.size(); i++)
      if (materials[i]->name == materialName) { currentMaterial = materials[i]; break; }\<close>
\<close>

fun usemtl_loop :: "Material list \<Rightarrow> nat \<Rightarrow> string \<Rightarrow> nat option \<Rightarrow> nat option" where
  "usemtl_loop [] i materialName cur = cur"
| "usemtl_loop (m # ms) i materialName cur =
     (if name m = materialName then Some i else usemtl_loop ms (Suc i) materialName cur)"

text \<open>\<^verbatim>\<open>while (newLine >> materialFilename) loadMaterials(std::string(path) + materialFilename);\<close>\<close>

partial_function (option) mtllib_loop ::
  "filesystem \<Rightarrow> string \<Rightarrow> istringstream \<Rightarrow> string \<Rightarrow> Model \<Rightarrow> device \<Rightarrow>
   (Model \<times> device) outcome" where
  "mtllib_loop fs path newLine materialFilename this dev =
     (let r = extract_string newLine materialFilename
      in if fail (snd r) then Some (Inr (this, dev))
         else case loadMaterials fs (path @ fst r) this dev of
                None \<Rightarrow> None
              | Some (Inl e) \<Rightarrow> Some (Inl e)
              | Some (Inr md) \<Rightarrow> mtllib_loop fs path (snd r) (fst r) (fst md) (snd md))"

declare mtllib_loop.simps [code]

text \<open>The locals of the loop over the references of one \<^verbatim>\<open>f\<close> line.\<close>

record face_parse =
  stream :: istringstream
  tmp :: char
  noUV :: bool
  tempVertices :: "nat list"
  tempNormals :: "nat list"
  tempUVWs :: "nat list"

text \<open>\<^verbatim>\<open>while (newLine.get(temp)) if (temp == '/' || temp == ' ') break;\<close>\<close>

function skip_to_separator :: "istringstream \<Rightarrow> char \<Rightarrow> char \<times> istringstream" where
  "skip_to_separator s c =
     (let r = get s c
      in if fail (snd r) then r
         else if fst r = CHR ''/'' \<or> fst r = CHR '' '' then r
         else skip_to_separator (snd r) (fst r))"
  by pat_completeness auto
termination
  by (relation "measure (\<lambda>(s, c). length (buf s) - gpos s)")
     (auto simp: get_def fail_def at_end_def split: if_splits)

declare skip_to_separator.simps [simp del]

text \<open>
  \<^verbatim>\<open>vertices[--vertex]\<close>: the element a decremented index points to. \<^verbatim>\<open>operator[]\<close> does
  not check the index; one outside the vector is undefined behaviour.
\<close>

definition pool_index :: "'a list \<Rightarrow> int \<Rightarrow> error + nat" where
  "pool_index pool i = (if 0 \<le> i \<and> nat i < length pool then Inr (nat i) else Inl OutOfRange)"

definition ref_vertex :: "Model \<Rightarrow> face_parse \<Rightarrow> error + face_parse" where
  "ref_vertex this p =
     (if 0 < length (vertices this) then
        let (vertex, s1) = extract_int (stream p) 0;
            (t1, s2) = skip_to_separator s1 (tmp p);
            (t2, s3) = get s2 t1;
            p' = (if t2 = CHR ''/'' then p\<lparr>stream := s3, tmp := t2, noUV := True\<rparr>
                  else p\<lparr>stream := unget s3, tmp := t2\<rparr>)
        in case pool_index (vertices this) (vertex - 1) of
             Inl e \<Rightarrow> Inl e
           | Inr i \<Rightarrow> Inr (p'\<lparr>tempVertices := tempVertices p' @ [i]\<rparr>)
      else Inr p)"

definition ref_uvw :: "Model \<Rightarrow> face_parse \<Rightarrow> error + face_parse" where
  "ref_uvw this p =
     (if 0 < length (UVWs this) \<and> noUV p = False then
        let (uvw, s1) = extract_int (stream p) 0;
            (t1, s2) = skip_to_separator s1 (tmp p);
            p' = p\<lparr>stream := s2, tmp := t1\<rparr>
        in case pool_index (UVWs this) (uvw - 1) of
             Inl e \<Rightarrow> Inl e
           | Inr i \<Rightarrow> Inr (p'\<lparr>tempUVWs := tempUVWs p' @ [i]\<rparr>)
      else Inr p)"

definition ref_normal :: "Model \<Rightarrow> face_parse \<Rightarrow> error + face_parse" where
  "ref_normal this p =
     (if 0 < length (normals this) then
        let (normal, s1) = extract_int (stream p) 0;
            (t1, s2) = skip_to_separator s1 (tmp p);
            p' = p\<lparr>stream := s2, tmp := t1\<rparr>
        in case pool_index (normals this) (normal - 1) of
             Inl e \<Rightarrow> Inl e
           | Inr i \<Rightarrow> Inr (p'\<lparr>tempNormals := tempNormals p' @ [i]\<rparr>)
      else Inr p)"

definition ref_body :: "Model \<Rightarrow> face_parse \<Rightarrow> error + face_parse" where
  "ref_body this p =
     (case ref_vertex this (p\<lparr>noUV := False\<rparr>) of
        Inl e \<Rightarrow> Inl e
      | Inr p1 \<Rightarrow>
          (case ref_uvw this p1 of
             Inl e \<Rightarrow> Inl e
           | Inr p2 \<Rightarrow> ref_normal this p2))"

text \<open>
  \<^verbatim>\<open>while (newLine >> std::ws && !newLine.eof()) { ... }\<close>
  When the three vectors are empty the body reads nothing, and the loop does not end on a
  line that has a reference.
\<close>

partial_function (option) face_refs :: "Model \<Rightarrow> face_parse \<Rightarrow> face_parse outcome" where
  "face_refs this p =
     (let s = ws (stream p)
      in if \<not> fail s \<and> \<not> eofbit s then
           (case ref_body this (p\<lparr>stream := s\<rparr>) of
              Inl e \<Rightarrow> Some (Inl e)
            | Inr p' \<Rightarrow> face_refs this p')
         else Some (Inr (p\<lparr>stream := s\<rparr>)))"

declare face_refs.simps [code]

text \<open>
  \<^verbatim>\<open>for (int v = 0; v < newFace->numVertices; v++)
      newFace->faceCenter += (*tempVertices[v]);\<close>
\<close>

fun center_loop :: "Vector3 list \<Rightarrow> Vector3 \<Rightarrow> Vector3" where
  "center_loop [] c = c"
| "center_loop (v # vs) c = center_loop vs (snd (op_plus_assign c v))"

text \<open>
  The face of an \<^verbatim>\<open>f\<close> line, from the references collected: the material, the three
  arrays, the centre (the sum loop, then \<^verbatim>\<open>faceCenter /= (float)numVertices\<close>) and, from
  three vertices on, the normal.
\<close>

definition fill_face :: "Model \<Rightarrow> nat option \<Rightarrow> face_parse \<Rightarrow> Face" where
  "fill_face this currentMaterial' p =
     (let numVertices = length (tempVertices p);
          positions = map (\<lambda>i. vertices this ! i) (tempVertices p);
          c1 = center_loop positions (faceCenter Face_new);
          c2 = snd (op_div_assign c1 (real numVertices));
          n = (if 3 \<le> numVertices then
                 let vector1 = fst (Normalize (op_minus (positions ! 0) (positions ! 1)));
                     vector2 = fst (Normalize (op_minus (positions ! 0) (positions ! 2)))
                 in op_cross vector1 vector2
               else faceNormal Face_new)
      in Face_new
           \<lparr>material := currentMaterial',
            face_vertices := tempVertices p, face_normals := tempNormals p,
            face_UVWs := tempUVWs p, faceCenter := c2, faceNormal := n\<rparr>)"

text \<open>\<^verbatim>\<open>currentGroup->faces.push_back(newFace)\<close>\<close>

definition push_face :: "Model \<Rightarrow> nat \<Rightarrow> Face \<Rightarrow> Model" where
  "push_face this g newFace =
     this\<lparr>objects := (objects this)
            [g := (objects this ! g)\<lparr>faces := faces (objects this ! g) @ [newFace]\<rparr>]\<rparr>"

text \<open>
  The \<^verbatim>\<open>f\<close> branch. The new face is pushed onto \<^verbatim>\<open>currentGroup->faces\<close> by pointer
  before it is filled in; the model pushes the filled face.
\<close>

definition face_line :: "istringstream \<Rightarrow> obj_state \<Rightarrow> obj_state outcome" where
  "face_line newLine0 st =
     (case face_refs (model st)
             \<lparr>stream = newLine0, tmp = temp st, noUV = False,
              tempVertices = [], tempNormals = [], tempUVWs = []\<rparr> of
        None \<Rightarrow> None
      | Some (Inl e) \<Rightarrow> Some (Inl e)
      | Some (Inr p) \<Rightarrow>
          Some (Inr (st\<lparr>temp := tmp p,
                        model := push_face (model st) (currentGroup st)
                                   (fill_face (model st) (currentMaterial st) p)\<rparr>)))"

definition object_line :: "filesystem \<Rightarrow> string \<Rightarrow> line \<Rightarrow> obj_state \<Rightarrow> obj_state outcome" where
  "object_line fs path l st =
     (let (firstWord, newLine) = extract_string (istringstream_new (chars l)) [];
          this = model st
      in if firstWord = ''#'' then Some (Inr st)
         else if firstWord = ''mtllib'' then
           (case mtllib_loop fs path newLine [] this (gl st) of
              None \<Rightarrow> None
            | Some (Inl e) \<Rightarrow> Some (Inl e)
            | Some (Inr md) \<Rightarrow> Some (Inr (st\<lparr>model := fst md, gl := snd md\<rparr>)))
         else if firstWord = ''usemtl'' then
           (let materialName = fst (extract_string newLine [])
            in Some (Inr (st\<lparr>currentMaterial :=
                 usemtl_loop (materials this) 0 materialName (currentMaterial st)\<rparr>)))
         else if firstWord = ''v'' then
           Some (Inr (st\<lparr>model := this\<lparr>vertices := vertices this @ [read_Vector3 l]\<rparr>\<rparr>))
         else if firstWord = ''vt'' then
           Some (Inr (st\<lparr>model := this\<lparr>UVWs := UVWs this @ [read_Vector3 l]\<rparr>\<rparr>))
         else if firstWord = ''vn'' then
           Some (Inr (st\<lparr>model := this\<lparr>normals := normals this @ [read_Vector3 l]\<rparr>\<rparr>))
         else if firstWord = ''g'' then
           (let (objectName', newLine1) = extract_string newLine []
            in if objectName' = ''default'' then
                 Some (Inr (st\<lparr>currentGroup := defaultObject st\<rparr>))
               else
                 let object = GroupObject_new
                       \<lparr>objectName := objectName',
                        groupName := fst (extract_string newLine1 [])\<rparr>
                 in Some (Inr (st\<lparr>currentGroup := length (objects this),
                                 model := this\<lparr>objects := objects this @ [object]\<rparr>\<rparr>)))
         else if firstWord = ''f'' then face_line newLine st
         else Some (Inr st))"

text \<open>\<^verbatim>\<open>while (istr.getline(line, 256)) { ... }\<close>\<close>

fun object_lines ::
  "filesystem \<Rightarrow> string \<Rightarrow> line list \<Rightarrow> obj_state \<Rightarrow> obj_state outcome" where
  "object_lines fs path [] st = Some (Inr st)"
| "object_lines fs path (l # ls) st =
     (if \<not> getline_ok l then Some (Inr st)
      else case object_line fs path l st of
             None \<Rightarrow> None
           | Some (Inl e) \<Rightarrow> Some (Inl e)
           | Some (Inr st') \<Rightarrow> object_lines fs path ls st')"

text \<open>
  The six extremes; they are assigned at the first vertex (\<^verbatim>\<open>n == 0\<close>, followed by
  \<^verbatim>\<open>continue\<close>) and have no value before.
\<close>

record extent =
  xmin :: real
  xmax :: real
  ymin :: real
  ymax :: real
  zmin :: real
  zmax :: real

definition grow :: "Vector3 \<Rightarrow> extent \<Rightarrow> extent" where
  "grow v e =
     (let e1 = (if vx v < xmin e then e\<lparr>xmin := vx v\<rparr> else e);
          e2 = (if vx v > xmax e1 then e1\<lparr>xmax := vx v\<rparr> else e1);
          e3 = (if vy v < ymin e2 then e2\<lparr>ymin := vy v\<rparr> else e2);
          e4 = (if vy v > ymax e3 then e3\<lparr>ymax := vy v\<rparr> else e3);
          e5 = (if vz v < zmin e4 then e4\<lparr>zmin := vz v\<rparr> else e4)
      in if vz v > zmax e5 then e5\<lparr>zmax := vz v\<rparr> else e5)"

text \<open>
  \<^verbatim>\<open>for (int n = 0; n < (int)vertices.size(); n++)\<close>: the first argument is the part of
  the vector from index \<open>n\<close> on.
\<close>

fun bounds_loop ::
  "Vector3 list \<Rightarrow> nat \<Rightarrow> extent option \<times> Vector3 \<Rightarrow> extent option \<times> Vector3" where
  "bounds_loop [] n st = st"
| "bounds_loop (v # vs) n (e, c) =
     (if n = 0 then
        bounds_loop vs (Suc n)
          (Some \<lparr>xmin = vx v, xmax = vx v, ymin = vy v, ymax = vy v, zmin = vz v, zmax = vz v\<rparr>, c)
      else bounds_loop vs (Suc n) (map_option (grow v) e, snd (op_plus_assign c v)))"

definition corners :: "extent \<Rightarrow> Vector3 list" where
  "corners e =
     [Vector3 (xmax e) (ymin e) (zmin e), Vector3 (xmin e) (ymax e) (zmin e),
      Vector3 (xmin e) (ymin e) (zmax e), Vector3 (xmin e) (ymax e) (zmax e),
      Vector3 (xmax e) (ymax e) (zmin e), Vector3 (xmax e) (ymin e) (zmax e),
      Vector3 (xmin e) (ymin e) (zmin e), Vector3 (xmax e) (ymax e) (zmax e)]"

definition bounding_radius :: "extent \<Rightarrow> real" where
  "bounding_radius e =
     Length (op_minus (Vector3 (xmax e) (ymax e) (zmax e)) (Vector3 (xmin e) (ymin e) (zmin e))) / 2"

text \<open>The part of \<^verbatim>\<open>loadObject\<close> after the reading loop.\<close>

definition bounds :: "Model \<Rightarrow> Model" where
  "bounds this =
     (let (e, c) = bounds_loop (vertices this) 0 (None, Vector3 0 0 0);
          c' = snd (op_div_assign c (real (length (vertices this))))
      in this\<lparr>center := c', boundingPoints := map_option corners e,
               radius := map_option bounding_radius e, objectLoaded := True\<rparr>)"

definition loadObject ::
  "filesystem \<Rightarrow> char \<Rightarrow> string \<Rightarrow> Model \<Rightarrow> device \<Rightarrow> (bool \<times> Model \<times> device) outcome" where
  "loadObject fs junk in_filename this gl0 =
     (let this1 = this\<lparr>filename := in_filename\<rparr>
      in case fs (filename this1) of
           None \<Rightarrow> Some (Inr (False, this1, gl0))
         | Some istr \<Rightarrow>
             let this2 = (deleteObjects this1)\<lparr>displayList := 0, objectLoaded := False\<rparr>;
                 this3 = this2\<lparr>objects := objects this2 @ [GroupObject_new]\<rparr>
             in case directory_of (filename this3) of
                  Inl e \<Rightarrow> Some (Inl e)
                | Inr path \<Rightarrow>
                    (case object_lines fs path (lines istr)
                            \<lparr>model = this3, gl = gl0,
                             defaultObject = length (objects this2),
                             currentGroup = length (objects this2),
                             currentMaterial = None, temp = junk\<rparr> of
                       None \<Rightarrow> None
                     | Some (Inl e) \<Rightarrow> Some (Inl e)
                     | Some (Inr st) \<Rightarrow> Some (Inr (True, bounds (model st), gl st))))"

section \<open>Directives\<close>

text \<open>
  The first, second and third word of a line, as the successive string extractions of the
  loaders give them, and the stream as the first extraction leaves it.
\<close>

definition word1 :: "line \<Rightarrow> string" where
  "word1 l = fst (extract_string (istringstream_new (chars l)) [])"

definition after_word1 :: "line \<Rightarrow> istringstream" where
  "after_word1 l = snd (extract_string (istringstream_new (chars l)) [])"

definition word2 :: "line \<Rightarrow> string" where
  "word2 l = fst (extract_string (after_word1 l) [])"

definition word3 :: "line \<Rightarrow> string" where
  "word3 l = fst (extract_string (snd (extract_string (after_word1 l) [])) [])"

text \<open>The slot of a material that a texture-map directive assigns.\<close>

definition map_slot :: "string \<Rightarrow> Material \<Rightarrow> Texture option" where
  "map_slot w m =
     (if w = ''map_Ka'' then ambientMap m
      else if w = ''map_Kd'' then diffuseMap m
      else if w = ''map_Ks'' then specularMap m
      else if w = ''map_Ke'' then emissionMap m
      else if w = ''map_Ns'' then shininessMap m
      else if w = ''map_d'' then transparencyMap m
      else if w = ''map_Bump'' then bumpMap m
      else None)"

section \<open>Inputs used in the evaluations\<close>

text \<open>
  A model as the constructor leaves it when it is given no file name, a file system
  without files, and files given by their lines or bytes.
\<close>

definition Model_init :: Model where
  "Model_init =
     \<lparr>objects = [], vertices = [], normals = [], UVWs = [], materials = [],
      boundingPoints = Some (replicate 8 Vector3_default), radius = None,
      center = Vector3_default, objectLoaded = False, displayList = 0, filename = []\<rparr>"

definition no_files :: filesystem where
  "no_files = (\<lambda>p. None)"

definition text_file :: "(string \<times> real list) list \<Rightarrow> disk_file" where
  "text_file ls = \<lparr>lines = map (\<lambda>(c, f). \<lparr>chars = c, floats = f, malformed = False\<rparr>) ls, bytes = []\<rparr>"

definition binary_file :: "8 word list \<Rightarrow> disk_file" where
  "binary_file bs = \<lparr>lines = [], bytes = bs\<rparr>"

text \<open>One triangle: three vertices and the face \<^verbatim>\<open>f 1 2 3\<close>.\<close>

definition triangle_fs :: filesystem where
  "triangle_fs =
     (\<lambda>p. if p = ''./tri.obj''
          then Some (text_file [(''v 0 0 0'', [0, 0, 0]), (''v 1 0 0'', [1, 0, 0]),
                                (''v 0 1 0'', [0, 1, 0]), (''f 1 2 3'', [])])
          else None)"

text \<open>A model of two vertices and a model of one.\<close>

definition points_fs :: filesystem where
  "points_fs =
     (\<lambda>p. if p = ''./two.obj''
          then Some (text_file [(''v 0 0 0'', [0, 0, 0]), (''v 2 0 0'', [2, 0, 0])])
          else if p = ''./one.obj'' then Some (text_file [(''v 5 6 7'', [5, 6, 7])])
          else None)"

text \<open>
  Two images of type 2 and depth 24: one of width 2 and height 1 with the pixels
  \<open>1 2 3\<close> and \<open>4 5 6\<close>; one whose width and height fields are both \<^verbatim>\<open>0xFFFF\<close>
  (\<open>-1\<close> as \<^verbatim>\<open>GLshort\<close>), followed by three bytes.
\<close>

definition pixel_fs :: filesystem where
  "pixel_fs =
     (\<lambda>p. if p = ''./two.tga''
          then Some (binary_file [0, 0, 2, 0, 0, 0, 0, 0, 0, 0, 0, 0, 2, 0, 1, 0, 24, 0,
                                  1, 2, 3, 4, 5, 6])
          else if p = ''./neg.tga''
          then Some (binary_file [0, 0, 2, 0, 0, 0, 0, 0, 0, 0, 0, 0, 255, 255, 255, 255, 24, 0,
                                  1, 2, 3])
          else None)"

text \<open>
  A line without numbers, and a state of the reading loop of \<^verbatim>\<open>loadObject\<close>: the
  default object, one vertex, one material named \<open>A\<close>, which is the active one.
  \<open>face_A\<close> is the face that the line \<^verbatim>\<open>f 1\<close> gives in that state, and \<open>state_A_f\<close>
  the state after that line.
\<close>

definition directive :: "string \<Rightarrow> line" where
  "directive c = \<lparr>chars = c, floats = [], malformed = False\<rparr>"

definition state_A :: obj_state where
  "state_A =
     \<lparr>model = Model_init\<lparr>objects := [GroupObject_new], vertices := [Vector3 0 0 0],
                          materials := [Material_new\<lparr>name := ''A''\<rparr>]\<rparr>,
      gl = [], defaultObject = 0, currentGroup = 0, currentMaterial = Some 0,
      temp = CHR ''x''\<rparr>"

definition face_A :: Face where
  "face_A =
     \<lparr>face_vertices = [0], face_normals = [], face_UVWs = [], material = Some 0,
      faceCenter = Vector3 0 0 0, faceNormal = Vector3 0 0 0\<rparr>"

definition state_A_f :: obj_state where
  "state_A_f = state_A\<lparr>model := push_face (model state_A) 0 face_A\<rparr>"

text \<open>
  A scene that loads a library with the material \<open>A\<close>, selects \<open>A\<close>, then asks for a
  material \<open>B\<close> that does not exist, and has one face after that.
\<close>

definition usemtl_fs :: filesystem where
  "usemtl_fs =
     (\<lambda>p. if p = ''./u.obj''
          then Some (text_file [(''mtllib u.mtl'', []), (''usemtl A'', []), (''usemtl B'', []),
                                (''v 0 0 0'', [0, 0, 0]), (''f 1'', [])])
          else if p = ''./u.mtl'' then Some (text_file [(''newmtl A'', [])])
          else None)"

text \<open>
  \<open>state_A\<close> after the lines \<^verbatim>\<open>g a b\<close>, \<^verbatim>\<open>f 1\<close>, \<^verbatim>\<open>g a\<close>; that state after
  \<^verbatim>\<open>g default\<close>; and that state after \<^verbatim>\<open>f 1\<close>.
\<close>

definition state_groups :: obj_state where
  "state_groups =
     state_A\<lparr>currentGroup := 2,
       model := (model state_A)\<lparr>objects :=
         [\<lparr>faces = [], objectName = [], groupName = []\<rparr>,
          \<lparr>faces = [face_A], objectName = ''a'', groupName = ''b''\<rparr>,
          \<lparr>faces = [], objectName = ''a'', groupName = []\<rparr>]\<rparr>\<rparr>"

definition state_groups_default :: obj_state where
  "state_groups_default = state_groups\<lparr>currentGroup := 0\<rparr>"

definition state_groups_f :: obj_state where
  "state_groups_f =
     state_A\<lparr>currentGroup := 0,
       model := (model state_A)\<lparr>objects :=
         [\<lparr>faces = [face_A], objectName = [], groupName = []\<rparr>,
          \<lparr>faces = [face_A], objectName = ''a'', groupName = ''b''\<rparr>,
          \<lparr>faces = [], objectName = ''a'', groupName = []\<rparr>]\<rparr>\<rparr>"

text \<open>A state whose pool has two materials of the name \<open>A\<close>.\<close>

definition state_AA :: obj_state where
  "state_AA =
     state_A\<lparr>currentMaterial := None,
       model := (model state_A)\<lparr>materials :=
         [Material_new\<lparr>name := ''A''\<rparr>,
          Material_new\<lparr>name := ''A'', Kd := [0, 1, 0, 1]\<rparr>]\<rparr>\<rparr>"

text \<open>
  A state of the reading loop of \<^verbatim>\<open>loadMaterials\<close> with the current material \<open>A\<close>; a
  library that gives \<open>A\<close> a diffuse map; the image it names, of type 10 (run-length
  encoded), and the header of that image.
\<close>

definition mtl_state_A :: mtl_state where
  "mtl_state_A =
     \<lparr>mtl_model = Model_init\<lparr>materials := [Material_new\<lparr>name := ''A''\<rparr>]\<rparr>,
      mtl_gl = [], mtl_material = Some 0\<rparr>"

definition map_fs :: filesystem where
  "map_fs =
     (\<lambda>p. if p = ''./m.mtl''
          then Some (text_file [(''newmtl A'', []), (''map_Kd t.tga'', []), (''Ns 5'', [5])])
          else if p = ''./t.tga''
          then Some (binary_file [0, 0, 10, 0, 0, 0, 0, 0, 0, 0, 0, 0, 1, 0, 1, 0, 24, 0,
                                  1, 2, 3])
          else None)"

definition rle_header :: TGA_Header where
  "rle_header =
     \<lparr>ID_Length = 0, ColorMapByte = 0, ImageType = 10,
      ColorMapSpecification = [0, 0, 0, 0, 0], xOrigin = 0, yOrigin = 0,
      ImageWidth = 1, ImageHeight = 1, PixelDepth = 24\<rparr>"

text \<open>A scene whose library defines the name \<open>A\<close> twice, with two diffuse colours.\<close>

definition duplicate_fs :: filesystem where
  "duplicate_fs =
     (\<lambda>p. if p = ''./d.obj''
          then Some (text_file [(''mtllib d.mtl'', []), (''v 0 0 0'', [0, 0, 0]),
                                (''usemtl A'', []), (''f 1'', [])])
          else if p = ''./d.mtl''
          then Some (text_file [(''newmtl A'', []), (''Kd 1 0 0'', [1, 0, 0]),
                                (''newmtl A'', []), (''Kd 0 1 0'', [0, 1, 0])])
          else None)"

text \<open>A scene whose face line comes before its vertices.\<close>

definition face_first_fs :: filesystem where
  "face_first_fs =
     (\<lambda>p. if p = ''./f.obj''
          then Some (text_file [(''f 1 2 3'', []), (''v 0 0 0'', [0, 0, 0]),
                                (''v 1 0 0'', [1, 0, 0]), (''v 0 1 0'', [0, 1, 0])])
          else None)"

text \<open>
  The state with two materials \<open>A\<close> after \<^verbatim>\<open>usemtl A\<close>, and after the line \<^verbatim>\<open>f 1\<close>
  that follows; the library of the scene above, and the model that reading it into an
  empty model gives.
\<close>

definition state_AA_used :: obj_state where
  "state_AA_used = state_AA\<lparr>currentMaterial := Some 0\<rparr>"

definition state_AA_f :: obj_state where
  "state_AA_f =
     state_AA_used\<lparr>model := (model state_AA)\<lparr>objects :=
       [\<lparr>faces = [face_A], objectName = [], groupName = []\<rparr>]\<rparr>\<rparr>"

definition duplicate_lib :: disk_file where
  "duplicate_lib =
     text_file [(''newmtl A'', []), (''Kd 1 0 0'', [1, 0, 0]),
                (''newmtl A'', []), (''Kd 0 1 0'', [0, 1, 0])]"

definition model_AA :: Model where
  "model_AA =
     Model_init\<lparr>materials :=
       [Material_new\<lparr>name := ''A'', Kd := [1, 0, 0, 1]\<rparr>,
        Material_new\<lparr>name := ''A'', Kd := [0, 1, 0, 1]\<rparr>]\<rparr>"

section \<open>Results about Vector3\<close>

lemma op_div_never_returns: "op_div v s = None"
proof (rule ccontr)
  assume "op_div v s \<noteq> None"
  then obtain p where "op_div v s = Some p" by blast
  then show False
    by (rule op_div.raw_induct [rotated, where P = "\<lambda>_ _ _. False"])
       (auto split: Option.bind_splits)
qed

lemma op_mult_never_returns: "op_mult v s = None"
proof (rule ccontr)
  assume "op_mult v s \<noteq> None"
  then obtain p where "op_mult v s = Some p" by blast
  then show False
    by (rule op_mult.raw_induct [rotated, where P = "\<lambda>_ _ _. False"])
       (auto split: Option.bind_splits)
qed

lemma op_div_assign_frame: "snd (op_div_assign v s) = v"
  by (simp add: op_div_assign_def)

lemma op_mult_assign_frame: "snd (op_mult_assign v s) = v"
  by (simp add: op_mult_assign_def)

text \<open>
  C3. \<^verbatim>\<open>v /= s\<close> returns the component-wise quotient and leaves \<open>v\<close> as it was, and
  \<^verbatim>\<open>v *= s\<close> does the same with the product; \<^verbatim>\<open>v / s\<close> and \<^verbatim>\<open>v * s\<close>, which are
  written to assign their result into \<open>v\<close>, call themselves first and never return, here
  at \<open>v = (2, 4, 6)\<close> and \<open>s = 2\<close>.
\<close>

theorem C3_division_pair:
  "op_div_assign (Vector3 2 4 6) 2 = (Vector3 1 2 3, Vector3 2 4 6) \<and>
   op_mult_assign (Vector3 2 4 6) 2 = (Vector3 4 8 12, Vector3 2 4 6) \<and>
   op_div (Vector3 2 4 6) 2 = None \<and>
   op_mult (Vector3 2 4 6) 2 = None"
  by (simp add: op_div_assign_def op_mult_assign_def
        op_div_never_returns op_mult_never_returns)


section \<open>Unfolding rules and helper lemmas\<close>

lemmas stream_defs = istringstream_new_def extract_string_def sentry_def good_def fail_def
  at_end_def unread_def isspace_def isdigit_def skip_space_def ws_def extract_int_def get_def
  unget_def digit_value_def INT_MAX_def INT_MIN_def skip_to_separator.simps

lemmas face_defs = face_refs.simps ref_body_def ref_vertex_def ref_uvw_def ref_normal_def
  pool_index_def face_line_def fill_face_def push_face_def Face_new_def op_plus_assign_def
  op_plus_def op_div_assign_def op_minus_def Normalize_def Length_def op_cross_def
  Vector3_default_def

lemmas load_defs = loadObject_def deleteObjects_def directory_of_def is_separator_def
  getline_ok_def object_line_def read_Vector3_def GroupObject_new_def bounds_def grow_def
  corners_def bounding_radius_def

lemmas mtl_defs = mtllib_loop.simps loadMaterials_def material_line_def Material_new_def
  through_material_def load_map_def Texture_new_def

lemmas tga_defs = loadTGA_def read_TGA_Header_def sizeof_TGA_Header_def GLshort_of_def
  swap_loop.simps createTexture_def

lemma center_loop_sum:
  "center_loop vs c =
     Vector3 (vx c + sum_list (map vx vs)) (vy c + sum_list (map vy vs))
             (vz c + sum_list (map vz vs))"
  by (induction vs arbitrary: c) (simp_all add: op_plus_assign_def op_plus_def Let_def add_ac)

lemma fill_face_faceCenter:
  "faceCenter (fill_face this cm p) =
     Vector3 (\<Sum>i\<leftarrow>tempVertices p. vx (vertices this ! i))
             (\<Sum>i\<leftarrow>tempVertices p. vy (vertices this ! i))
             (\<Sum>i\<leftarrow>tempVertices p. vz (vertices this ! i))"
  by (simp add: fill_face_def Let_def center_loop_sum op_div_assign_def Face_new_def
        Vector3_default_def comp_def)

lemma fill_face_material: "material (fill_face this cm p) = cm"
  by (simp add: fill_face_def Let_def Face_new_def)

lemma usemtl_loop_no_match:
  "\<forall>m \<in> set ms. name m \<noteq> n \<Longrightarrow> usemtl_loop ms i n cur = cur"
  by (induction ms arbitrary: i) simp_all

lemma usemtl_loop_first_match:
  "k < length ms \<Longrightarrow> name (ms ! k) = n \<Longrightarrow> \<forall>j<k. name (ms ! j) \<noteq> n \<Longrightarrow>
   usemtl_loop ms i n cur = Some (i + k)"
proof (induction ms arbitrary: i k)
  case Nil
  then show ?case by simp
next
  case (Cons m ms)
  show ?case
  proof (cases k)
    case 0
    with Cons.prems show ?thesis by simp
  next
    case (Suc k')
    with Cons.prems have "name m \<noteq> n" by auto
    moreover have "usemtl_loop ms (Suc i) n cur = Some (Suc i + k')"
      using Cons.prems Suc by (intro Cons.IH) auto
    ultimately show ?thesis using Suc by simp
  qed
qed

lemma usemtl_loop_match_exists:
  "\<exists>m \<in> set ms. name m = n \<Longrightarrow>
   \<exists>k<length ms. name (ms ! k) = n \<and> (\<forall>j<k. name (ms ! j) \<noteq> n) \<and>
     usemtl_loop ms i n cur = Some (i + k)"
proof (induction ms arbitrary: i)
  case Nil
  then show ?case by simp
next
  case (Cons m ms)
  show ?case
  proof (cases "name m = n")
    case True
    then show ?thesis by (intro exI [of _ 0]) simp
  next
    case False
    with Cons.prems have "\<exists>m \<in> set ms. name m = n" by simp
    from Cons.IH [OF this, of "Suc i"] obtain k where
      k: "k < length ms" "name (ms ! k) = n" "\<forall>j<k. name (ms ! j) \<noteq> n"
         "usemtl_loop ms (Suc i) n cur = Some (Suc i + k)" by blast
    show ?thesis
      using False k by (intro exI [of _ "Suc k"]) (auto simp: less_Suc_eq_0_disj)
  qed
qed

lemma object_line_usemtl:
  assumes "word1 l = ''usemtl''"
  shows "object_line fs path l st =
     Some (Inr (st\<lparr>currentMaterial :=
       usemtl_loop (materials (model st)) 0 (word2 l) (currentMaterial st)\<rparr>))"
  using assms
  by (simp add: object_line_def Let_def word1_def word2_def after_word1_def case_prod_beta)

lemma object_line_face:
  assumes "word1 l = ''f''"
  shows "object_line fs path l st = face_line (after_word1 l) st"
  using assms by (simp add: object_line_def Let_def word1_def after_word1_def case_prod_beta)

lemma face_line_returns:
  assumes "face_line s st = Some (Inr st')"
  shows "\<exists>p. st' = st\<lparr>temp := tmp p,
            model := push_face (model st) (currentGroup st)
                       (fill_face (model st) (currentMaterial st) p)\<rparr>"
  using assms by (auto simp: face_line_def split: option.splits sum.splits)

lemma object_line_g_default:
  assumes "word1 l = ''g''" and "word2 l = ''default''"
  shows "object_line fs path l st = Some (Inr (st\<lparr>currentGroup := defaultObject st\<rparr>))"
  using assms
  by (simp add: object_line_def Let_def word1_def word2_def after_word1_def case_prod_beta)

lemma object_line_g_new:
  assumes "word1 l = ''g''" and "word2 l \<noteq> ''default''"
  shows "object_line fs path l st =
     Some (Inr (st\<lparr>currentGroup := length (objects (model st)),
                   model := (model st)\<lparr>objects := objects (model st) @
                     [\<lparr>faces = [], objectName = word2 l, groupName = word3 l\<rparr>]\<rparr>\<rparr>))"
  using assms
  by (simp add: object_line_def Let_def GroupObject_new_def word1_def word2_def word3_def
        after_word1_def case_prod_beta)

lemma material_line_newmtl:
  assumes "word1 l = ''newmtl''"
  shows "material_line fs path l st =
     Some (Inr (st\<lparr>mtl_material := Some (length (materials (mtl_model st))),
                   mtl_model := (mtl_model st)
                     \<lparr>materials := materials (mtl_model st) @
                        [Material_new\<lparr>name := word2 l\<rparr>]\<rparr>\<rparr>))"
  using assms
  by (simp add: material_line_def Let_def word1_def word2_def after_word1_def case_prod_beta)

text \<open>What the material loader leaves alone.\<close>

lemma through_material_objects:
  "through_material st f = Some (Inr st') \<Longrightarrow>
   objects (mtl_model st') = objects (mtl_model st)"
  by (auto simp: through_material_def split: option.splits)

lemma load_map_objects:
  "load_map fs path s st store = Some (Inr st') \<Longrightarrow>
   objects (mtl_model st') = objects (mtl_model st)"
  by (auto simp: load_map_def Let_def split: option.splits sum.splits
        dest!: through_material_objects)

lemma material_line_objects:
  "material_line fs path l st = Some (Inr st') \<Longrightarrow>
   objects (mtl_model st') = objects (mtl_model st)"
  unfolding material_line_def Let_def case_prod_beta
  by (auto split: if_split_asm
        dest: through_material_objects load_map_objects)

lemma material_lines_objects:
  "material_lines fs path ls st = Some (Inr st') \<Longrightarrow>
   objects (mtl_model st') = objects (mtl_model st)"
proof (induction ls arbitrary: st)
  case Nil
  then show ?case by simp
next
  case (Cons l ls)
  show ?case
  proof (cases "getline_ok l")
    case False
    with Cons.prems show ?thesis by simp
  next
    case True
    with Cons.prems obtain st1 where
      l: "material_line fs path l st = Some (Inr st1)" and
      ls: "material_lines fs path ls st1 = Some (Inr st')"
      by (auto split: option.splits sum.splits)
    from Cons.IH [OF ls] material_line_objects [OF l] show ?thesis by simp
  qed
qed

lemma loadMaterials_objects:
  "loadMaterials fs n this dev = Some (Inr (this', dev')) \<Longrightarrow> objects this' = objects this"
  by (auto simp: loadMaterials_def split: option.splits sum.splits
        dest!: material_lines_objects)

lemma mtllib_loop_objects:
  assumes "mtllib_loop fs path s w this dev = Some r"
  shows "case r of Inl e \<Rightarrow> True | Inr md \<Rightarrow> objects (fst md) = objects this"
  using assms
proof (induction fs path s w this dev r rule: mtllib_loop.raw_induct [rotated, consumes 1])
  case (1 mtllib_loop fs path s w this dev r)
  show ?case
  proof (cases "fail (snd (extract_string s w))")
    case True
    with 1(2) show ?thesis by (auto simp: Let_def)
  next
    case False
    show ?thesis
    proof (cases "loadMaterials fs (path @ fst (extract_string s w)) this dev")
      case None
      with 1(2) False show ?thesis by (simp add: Let_def)
    next
      case (Some a)
      show ?thesis
      proof (cases a)
        case (Inl e)
        with 1(2) False Some show ?thesis by (auto simp: Let_def)
      next
        case (Inr md)
        with 1(2) False Some have
          rec: "mtllib_loop fs path (snd (extract_string s w)) (fst (extract_string s w))
                  (fst md) (snd md) = Some r"
          by (simp add: Let_def)
        from Some Inr have "objects (fst md) = objects this"
          using loadMaterials_objects [of fs _ this dev "fst md" "snd md"] by simp
        with 1(1) [OF rec] show ?thesis by (auto split: sum.splits)
      qed
    qed
  qed
qed

lemma push_face_length: "length (objects (push_face this g f)) = length (objects this)"
  by (simp add: push_face_def)

lemma object_line_frame:
  assumes "object_line fs path l st = Some (Inr st')"
  shows "defaultObject st' = defaultObject st \<and>
         length (objects (model st)) \<le> length (objects (model st'))"
proof -
  consider (lib) "word1 l = ''mtllib''" | (f) "word1 l = ''f''"
    | (other) "word1 l \<noteq> ''mtllib''" "word1 l \<noteq> ''f''" by blast
  then show ?thesis
  proof cases
    case lib
    with assms obtain md where
      "mtllib_loop fs path (after_word1 l) [] (model st) (gl st) = Some (Inr md)"
      "st' = st\<lparr>model := fst md, gl := snd md\<rparr>"
      by (auto simp: object_line_def Let_def word1_def after_word1_def case_prod_beta
            split: option.splits sum.splits)
    with mtllib_loop_objects [of fs path "after_word1 l" "[]" "model st" "gl st" "Inr md"]
    show ?thesis by simp
  next
    case f
    with assms face_line_returns [of "after_word1 l" st st'] show ?thesis
      by (auto simp: object_line_face push_face_length)
  next
    case other
    with assms show ?thesis
      by (auto simp: object_line_def Let_def word1_def case_prod_beta split: if_split_asm)
  qed
qed

lemma object_lines_frame:
  "object_lines fs path ls st = Some (Inr st') \<Longrightarrow>
   defaultObject st' = defaultObject st \<and>
   length (objects (model st)) \<le> length (objects (model st'))"
proof (induction ls arbitrary: st)
  case Nil
  then show ?case by simp
next
  case (Cons l ls)
  show ?case
  proof (cases "getline_ok l")
    case False
    with Cons.prems show ?thesis by simp
  next
    case True
    with Cons.prems obtain st1 where
      l: "object_line fs path l st = Some (Inr st1)" and
      ls: "object_lines fs path ls st1 = Some (Inr st')"
      by (auto split: option.splits sum.splits)
    from Cons.IH [OF ls] object_line_frame [OF l] show ?thesis by simp
  qed
qed

lemma object_line_keeps_group:
  assumes "word1 l \<noteq> ''g''" and "object_line fs path l st = Some (Inr st')"
  shows "currentGroup st' = currentGroup st"
proof (cases "word1 l = ''f''")
  case True
  with assms(2) face_line_returns [of "after_word1 l" st st'] show ?thesis
    by (auto simp: object_line_face)
next
  case False
  with assms show ?thesis
    by (auto simp: object_line_def Let_def word1_def case_prod_beta
          split: if_split_asm option.splits sum.splits)
qed

lemma object_lines_keep_group:
  "\<forall>m \<in> set ls. word1 m \<noteq> ''g'' \<Longrightarrow> object_lines fs path ls st = Some (Inr st') \<Longrightarrow>
   currentGroup st' = currentGroup st"
proof (induction ls arbitrary: st)
  case Nil
  then show ?case by simp
next
  case (Cons l ls)
  show ?case
  proof (cases "getline_ok l")
    case False
    with Cons.prems show ?thesis by simp
  next
    case True
    with Cons.prems obtain sm where
      l: "object_line fs path l st = Some (Inr sm)" and
      ls: "object_lines fs path ls sm = Some (Inr st')"
      by (auto split: option.splits sum.splits)
    from Cons.prems have "word1 l \<noteq> ''g''" "\<forall>m \<in> set ls. word1 m \<noteq> ''g''" by auto
    with Cons.IH [OF _ ls] object_line_keeps_group [OF _ l] show ?thesis by simp
  qed
qed

lemma object_line_keeps_material:
  assumes "word1 l \<noteq> ''usemtl''" and "object_line fs path l st = Some (Inr st')"
  shows "currentMaterial st' = currentMaterial st"
proof (cases "word1 l = ''f''")
  case True
  with assms(2) face_line_returns [of "after_word1 l" st st'] show ?thesis
    by (auto simp: object_line_face)
next
  case False
  with assms show ?thesis
    by (auto simp: object_line_def Let_def word1_def case_prod_beta
          split: if_split_asm option.splits sum.splits)
qed

lemma object_line_face_pushes:
  assumes "word1 l = ''f''" and "object_line fs path l st = Some (Inr st')"
  shows "\<exists>f. model st' = push_face (model st) (currentGroup st) f \<and>
             material f = currentMaterial st \<and> currentMaterial st' = currentMaterial st \<and>
             currentGroup st' = currentGroup st"
  using assms face_line_returns [of "after_word1 l" st st']
  by (auto simp: object_line_face fill_face_material)

lemma load_map_unsupported:
  assumes "fs (path @ fst (extract_string s [])) = Some f"
    and "read_TGA_Header (bytes f) = Some h" and "ImageType h \<noteq> 2"
    and "mtl_material st = Some i"
  shows "load_map fs path s st store =
     Some (Inr (st\<lparr>mtl_model := (mtl_model st)
       \<lparr>materials := (materials (mtl_model st))
          [i := store Texture_init (materials (mtl_model st) ! i)]\<rparr>\<rparr>))"
  using assms
  by (simp add: load_map_def Texture_new_def loadTGA_def through_material_def
        Texture_init_def Let_def)


lemmas word_defs = word1_def word2_def word3_def after_word1_def directive_def

lemma material_line_map:
  assumes "word1 l \<in> set [''map_Ka'', ''map_Kd'', ''map_Ks'', ''map_Ke'', ''map_Ns'',
                         ''map_d'', ''map_Bump'']"
    and "fs (path @ word2 l) = Some f"
    and "read_TGA_Header (bytes f) = Some h" and "ImageType h \<noteq> 2"
    and "mtl_material st = Some i" and "i < length (materials (mtl_model st))"
  shows "\<exists>st'. material_line fs path l st = Some (Inr st') \<and>
           map_slot (word1 l) (materials (mtl_model st') ! i) = Some Texture_init \<and>
           mtl_gl st' = mtl_gl st"
proof -
  have f': "fs (path @ fst (extract_string
              (snd (extract_string (istringstream_new (chars l)) [])) [])) = Some f"
    using assms(2) by (simp add: word2_def after_word1_def)
  note lm = load_map_unsupported [where fs = fs and path = path and st = st,
    OF f' assms(3) assms(4) assms(5)]
  from assms(1) consider
      "word1 l = ''map_Ka''" | "word1 l = ''map_Kd''" | "word1 l = ''map_Ks''"
    | "word1 l = ''map_Ke''" | "word1 l = ''map_Ns''" | "word1 l = ''map_d''"
    | "word1 l = ''map_Bump''" by auto
  then show ?thesis
  proof cases
    case 1
    then show ?thesis using assms(6)
      by (simp add: material_line_def Let_def case_prod_beta word1_def lm map_slot_def)
  next
    case 2
    then show ?thesis using assms(6)
      by (simp add: material_line_def Let_def case_prod_beta word1_def lm map_slot_def)
  next
    case 3
    then show ?thesis using assms(6)
      by (simp add: material_line_def Let_def case_prod_beta word1_def lm map_slot_def)
  next
    case 4
    then show ?thesis using assms(6)
      by (simp add: material_line_def Let_def case_prod_beta word1_def lm map_slot_def)
  next
    case 5
    then show ?thesis using assms(6)
      by (simp add: material_line_def Let_def case_prod_beta word1_def lm map_slot_def)
  next
    case 6
    then show ?thesis using assms(6)
      by (simp add: material_line_def Let_def case_prod_beta word1_def lm map_slot_def)
  next
    case 7
    then show ?thesis using assms(6)
      by (simp add: material_line_def Let_def case_prod_beta word1_def lm map_slot_def)
  qed
qed

lemmas state_defs = state_A_def state_groups_def state_groups_default_def state_groups_f_def
  state_AA_def face_A_def
  Model_init_def GroupObject_new_def Material_new_def

text \<open>
  What the part after the reading loop computes, for any model: the centre is the sum of
  the vertices after the first, and with at least one vertex the radius is half the
  diagonal of the box spanned by the least and greatest coordinates.
\<close>

lemma grow_eq:
  "grow v e =
     \<lparr>xmin = min (xmin e) (vx v), xmax = max (xmax e) (vx v),
      ymin = min (ymin e) (vy v), ymax = max (ymax e) (vy v),
      zmin = min (zmin e) (vz v), zmax = max (zmax e) (vz v)\<rparr>"
  by (simp add: grow_def Let_def min_def max_def)

lemma bounds_loop_later:
  "0 < n \<Longrightarrow>
   bounds_loop vs n (Some e, c) =
     (Some (fold grow vs e),
      Vector3 (vx c + sum_list (map vx vs)) (vy c + sum_list (map vy vs))
              (vz c + sum_list (map vz vs)))"
  by (induction vs arbitrary: n e c)
     (simp_all add: op_plus_assign_def op_plus_def Let_def add_ac)

lemma bounds_loop_first:
  "bounds_loop (v # vs) 0 (None, Vector3 0 0 0) =
     (Some (fold grow vs
        \<lparr>xmin = vx v, xmax = vx v, ymin = vy v, ymax = vy v, zmin = vz v, zmax = vz v\<rparr>),
      Vector3 (sum_list (map vx vs)) (sum_list (map vy vs)) (sum_list (map vz vs)))"
  by (simp add: bounds_loop_later)

lemma fold_grow:
  "fold grow vs e =
     \<lparr>xmin = fold min (map vx vs) (xmin e), xmax = fold max (map vx vs) (xmax e),
      ymin = fold min (map vy vs) (ymin e), ymax = fold max (map vy vs) (ymax e),
      zmin = fold min (map vz vs) (zmin e), zmax = fold max (map vz vs) (zmax e)\<rparr>"
  by (induction vs arbitrary: e) (simp_all add: grow_eq min.commute max.commute)

lemma bounds_center:
  "center (bounds this) =
     Vector3 (sum_list (map vx (tl (vertices this)))) (sum_list (map vy (tl (vertices this))))
             (sum_list (map vz (tl (vertices this))))"
proof (cases "vertices this")
  case Nil
  then show ?thesis by (simp add: bounds_def op_div_assign_def)
next
  case (Cons v vs)
  then show ?thesis
    by (simp add: bounds_def bounds_loop_first op_div_assign_def del: bounds_loop.simps)
qed

lemma bounds_radius:
  assumes "vertices this \<noteq> []"
  shows "radius (bounds this) =
     Some (sqrt ((Max (vx ` set (vertices this)) - Min (vx ` set (vertices this))) ^ 2 +
                 (Max (vy ` set (vertices this)) - Min (vy ` set (vertices this))) ^ 2 +
                 (Max (vz ` set (vertices this)) - Min (vz ` set (vertices this))) ^ 2) / 2)"
proof -
  from assms obtain v vs where vs: "vertices this = v # vs" by (cases "vertices this") auto
  have mn: "fold min (map f vs) (f v) = Min (f ` set (v # vs))" for f :: "Vector3 \<Rightarrow> real"
    using Min.set_eq_fold [of "f v" "map f vs"] by simp
  have mx: "fold max (map f vs) (f v) = Max (f ` set (v # vs))" for f :: "Vector3 \<Rightarrow> real"
    using Max.set_eq_fold [of "f v" "map f vs"] by simp
  show ?thesis
    unfolding vs
    by (simp add: bounds_def vs bounds_loop_first fold_grow bounding_radius_def Length_def
          op_minus_def mn mx power2_eq_square del: bounds_loop.simps)
qed

text \<open>
  The loop over the references of a face does not end when the three vectors are empty
  and the line has a reference left: a scene whose first \<^verbatim>\<open>f\<close> line comes before any
  \<^verbatim>\<open>v\<close>, \<^verbatim>\<open>vt\<close> or \<^verbatim>\<open>vn\<close> line is never loaded.
\<close>

lemma takeWhile_dropWhile_Nil: "takeWhile P (dropWhile P xs) = []"
  by (induction xs) simp_all

lemma skip_space_idem: "skip_space (skip_space s) = skip_space s"
proof -
  have "takeWhile isspace (drop (gpos s + length (takeWhile isspace (drop (gpos s) (buf s))))
          (buf s)) = []"
  proof -
    have "drop (gpos s + length (takeWhile isspace (drop (gpos s) (buf s)))) (buf s) =
          dropWhile isspace (drop (gpos s) (buf s))"
      by (simp add: dropWhile_eq_drop add.commute)
    then show ?thesis by (simp add: takeWhile_dropWhile_Nil)
  qed
  then show ?thesis by (simp add: skip_space_def unread_def)
qed

lemma face_refs_without_pools:
  assumes "vertices this = []" and "UVWs this = []" and "normals this = []"
    and "good (stream p)" and "\<not> at_end (skip_space (stream p))"
  shows "face_refs this p = None"
proof (rule ccontr)
  assume "face_refs this p \<noteq> None"
  then obtain r where "face_refs this p = Some r" by blast
  then have "\<not> (vertices this = [] \<and> UVWs this = [] \<and> normals this = [] \<and>
      good (stream p) \<and> \<not> at_end (skip_space (stream p)))"
  proof (induction this p r rule: face_refs.raw_induct [rotated, consumes 1])
    case (1 face_refs this p r)
    show ?case
    proof
      assume a: "vertices this = [] \<and> UVWs this = [] \<and> normals this = [] \<and>
        good (stream p) \<and> \<not> at_end (skip_space (stream p))"
      let ?s = "skip_space (stream p)"
      let ?p = "p\<lparr>stream := ?s, noUV := False\<rparr>"
      from a have w: "ws (stream p) = ?s" by (simp add: ws_def Let_def)
      from a have g: "good ?s" by (simp add: good_def skip_space_def)
      then have c: "\<not> fail ?s \<and> \<not> eofbit ?s" by (simp add: good_def fail_def)
      from a have b: "ref_body this (p\<lparr>stream := ?s\<rparr>) = Inr ?p"
        by (simp add: ref_body_def ref_vertex_def ref_uvw_def ref_normal_def)
      from 1(2) w c b have "face_refs this ?p = Some r" by (simp add: Let_def)
      from 1(1) [OF this] a g show False by (simp add: skip_space_idem)
    qed
  qed
  with assms show False by blast
qed

lemma face_before_vertices_never_returns:
  "loadObject face_first_fs junk ''./f.obj'' Model_init [] = None"
proof -
  have "face_refs
     \<lparr>objects = [GroupObject_new], vertices = [], normals = [], UVWs = [], materials = [],
      boundingPoints = Some (replicate 8 Vector3_default), radius = None,
      center = Vector3_default, objectLoaded = False, displayList = 0,
      filename = ''./f.obj''\<rparr>
     \<lparr>stream = \<lparr>buf = ''f 1 2 3'', gpos = 1, eofbit = False, failbit = False,
                 badbit = False\<rparr>,
      tmp = junk, noUV = False, tempVertices = [], tempNormals = [], tempUVWs = []\<rparr> = None"
    by (rule face_refs_without_pools) (simp_all add: good_def at_end_def skip_space_def
          unread_def isspace_def)
  then show ?thesis
    by (simp add: face_first_fs_def text_file_def Model_init_def loadObject_def
          deleteObjects_def directory_of_def is_separator_def getline_ok_def object_line_def
          face_line_def stream_defs Let_def GroupObject_new_def Vector3_default_def)
qed


text \<open>
  Apart from that case the loop ends: each round that does not fail moves the read
  position forward. So an \<^verbatim>\<open>f\<close> line returns, or runs into an index outside a vector,
  whenever one of the three vectors has an element.
\<close>

lemma follows_refl: "gpos s \<le> length (buf s) \<Longrightarrow> follows s s"
  by (simp add: follows_def)

lemma follows_trans: "follows s t \<Longrightarrow> follows t u \<Longrightarrow> follows s u"
  by (auto simp: follows_def)

lemma follows_bound: "follows s t \<Longrightarrow> gpos t \<le> length (buf t)"
  by (simp add: follows_def)

lemma get_follows: "gpos s \<le> length (buf s) \<Longrightarrow> follows s (snd (get s c))"
  by (auto simp: follows_def get_def fail_def good_def at_end_def)

lemma skip_to_separator_follows:
  "gpos s \<le> length (buf s) \<Longrightarrow> follows s (snd (skip_to_separator s c))"
proof (induction s c rule: skip_to_separator.induct)
  case (1 s c)
  note g = get_follows [OF 1(2), of c]
  show ?case
  proof (cases "fail (snd (get s c)) \<or> fst (get s c) = CHR ''/'' \<or> fst (get s c) = CHR '' ''")
    case True
    with g show ?thesis by (subst skip_to_separator.simps) (auto simp: Let_def)
  next
    case False
    then have "skip_to_separator s c = skip_to_separator (snd (get s c)) (fst (get s c))"
      by (subst skip_to_separator.simps) (simp add: Let_def)
    moreover have "follows (snd (get s c)) (snd (skip_to_separator (snd (get s c)) (fst (get s c))))"
      using False g by (intro 1(1)) (auto simp: follows_def)
    ultimately show ?thesis using g by (auto intro: follows_trans)
  qed
qed

lemma get_unget_follows:
  assumes "gpos s \<le> length (buf s)"
  shows "follows s (if fst (get s c) = CHR ''/'' then snd (get s c) else unget (snd (get s c)))"
  using assms
  by (auto simp: follows_def get_def unget_def fail_def good_def at_end_def Let_def)

lemma skip_space_bound:
  "gpos s \<le> length (buf s) \<Longrightarrow> gpos (skip_space s) \<le> length (buf s)"
proof -
  assume a: "gpos s \<le> length (buf s)"
  have "length (takeWhile isspace (drop (gpos s) (buf s))) \<le> length (drop (gpos s) (buf s))"
    by (rule length_takeWhile_le)
  with a show ?thesis by (simp add: skip_space_def unread_def)
qed

lemma extract_int_follows:
  assumes "gpos s \<le> length (buf s)"
  shows "follows s (snd (extract_int s n))"
proof (cases "fst (sentry s)")
  case False
  with assms skip_space_bound [OF assms] show ?thesis
    by (auto simp: extract_int_def sentry_def follows_def fail_def Let_def skip_space_def
          split: if_splits prod.splits)
next
  case True
  then have g: "good s" and e: "\<not> at_end (skip_space s)" and
    st: "sentry s = (True, skip_space s)"
    by (auto simp: sentry_def Let_def split: if_splits)
  let ?s = "skip_space s"
  let ?cs = "unread ?s"
  let ?sign = "takeWhile (\<lambda>c. c = CHR ''+'' \<or> c = CHR ''-'') (take 1 ?cs)"
  let ?ds = "takeWhile isdigit (drop (length ?sign) ?cs)"
  have "length ?sign \<le> length (take 1 ?cs)" by (rule length_takeWhile_le)
  then have s1: "length ?sign \<le> length ?cs" by simp
  have "length ?ds \<le> length (drop (length ?sign) ?cs)" by (rule length_takeWhile_le)
  then have s2: "length ?ds \<le> length ?cs - length ?sign" by simp
  from s1 s2 have "length ?sign + length ?ds \<le> length ?cs" by linarith
  moreover have "length ?cs = length (buf s) - gpos ?s" by (simp add: unread_def skip_space_def)
  moreover note skip_space_bound [OF assms]
  moreover have "gpos s \<le> gpos ?s" "buf ?s = buf s" "fail ?s = fail s"
    by (simp_all add: skip_space_def fail_def)
  ultimately show ?thesis
    by (auto simp: extract_int_def st follows_def fail_def Let_def)
qed

lemma extract_int_progress:
  assumes "good s" and "gpos s < length (buf s)" and "\<not> isspace (buf s ! gpos s)"
  shows "fail (snd (extract_int s n)) \<or> gpos s < gpos (snd (extract_int s n))"
proof -
  from assms(2) have u: "unread s = buf s ! gpos s # drop (Suc (gpos s)) (buf s)"
    by (simp add: unread_def Cons_nth_drop_Suc)
  with assms(3) have sk: "skip_space s = s" by (simp add: skip_space_def)
  with assms have st: "sentry s = (True, s)" by (simp add: sentry_def at_end_def)
  let ?sign = "takeWhile (\<lambda>c. c = CHR ''+'' \<or> c = CHR ''-'') (take 1 (unread s))"
  let ?ds = "takeWhile isdigit (drop (length ?sign) (unread s))"
  show ?thesis
  proof (cases "?ds = []")
    case True
    then show ?thesis by (simp add: extract_int_def st Let_def fail_def)
  next
    case False
    then have "0 < length ?ds" by simp
    then show ?thesis by (auto simp: extract_int_def st Let_def fail_def)
  qed
qed

lemma ref_vertex_follows:
  assumes "gpos (stream p) \<le> length (buf (stream p))" and "ref_vertex this p = Inr p'"
  shows "follows (stream p) (stream p')"
proof (cases "0 < length (vertices this)")
  case False
  with assms show ?thesis by (simp add: ref_vertex_def follows_refl)
next
  case True
  let ?s1 = "snd (extract_int (stream p) 0)"
  let ?r2 = "skip_to_separator ?s1 (tmp p)"
  let ?s4 = "if fst (get (snd ?r2) (fst ?r2)) = CHR ''/'' then snd (get (snd ?r2) (fst ?r2))
             else unget (snd (get (snd ?r2) (fst ?r2)))"
  have f1: "follows (stream p) ?s1" by (rule extract_int_follows [OF assms(1)])
  have f2: "follows ?s1 (snd ?r2)"
    by (rule skip_to_separator_follows [OF follows_bound [OF f1]])
  have f3: "follows (snd ?r2) ?s4"
    by (rule get_unget_follows [OF follows_bound [OF f2]])
  from assms(2) True have "stream p' = ?s4"
    by (auto simp: ref_vertex_def Let_def case_prod_beta split: sum.splits if_splits)
  with f1 f2 f3 show ?thesis by (auto intro: follows_trans)
qed

lemma ref_vertex_progress:
  assumes "good (stream p)" and "gpos (stream p) < length (buf (stream p))"
    and "\<not> isspace (buf (stream p) ! gpos (stream p))"
    and "0 < length (vertices this)" and "ref_vertex this p = Inr p'"
  shows "fail (stream p') \<or> gpos (stream p) < gpos (stream p')"
proof -
  let ?s1 = "snd (extract_int (stream p) 0)"
  let ?r2 = "skip_to_separator ?s1 (tmp p)"
  let ?s4 = "if fst (get (snd ?r2) (fst ?r2)) = CHR ''/'' then snd (get (snd ?r2) (fst ?r2))
             else unget (snd (get (snd ?r2) (fst ?r2)))"
  from assms(2) have b: "gpos (stream p) \<le> length (buf (stream p))" by simp
  have f1: "follows (stream p) ?s1" by (rule extract_int_follows [OF b])
  have f2: "follows ?s1 (snd ?r2)"
    by (rule skip_to_separator_follows [OF follows_bound [OF f1]])
  have f3: "follows (snd ?r2) ?s4"
    by (rule get_unget_follows [OF follows_bound [OF f2]])
  from f2 f3 have f: "follows ?s1 ?s4" by (rule follows_trans)
  from assms(4,5) have "stream p' = ?s4"
    by (auto simp: ref_vertex_def Let_def case_prod_beta split: sum.splits if_splits)
  with f extract_int_progress [OF assms(1-3), of 0] show ?thesis
    by (auto simp: follows_def)
qed

lemma ref_uvw_follows:
  assumes "gpos (stream p) \<le> length (buf (stream p))" and "ref_uvw this p = Inr p'"
  shows "follows (stream p) (stream p')"
proof (cases "0 < length (UVWs this) \<and> noUV p = False")
  case False
  with assms show ?thesis by (auto simp: ref_uvw_def follows_refl)
next
  case True
  let ?s1 = "snd (extract_int (stream p) 0)"
  let ?r2 = "skip_to_separator ?s1 (tmp p)"
  have f1: "follows (stream p) ?s1" by (rule extract_int_follows [OF assms(1)])
  have f2: "follows ?s1 (snd ?r2)"
    by (rule skip_to_separator_follows [OF follows_bound [OF f1]])
  from assms(2) True have "stream p' = snd ?r2"
    by (auto simp: ref_uvw_def Let_def case_prod_beta split: sum.splits if_splits)
  with f1 f2 show ?thesis by (auto intro: follows_trans)
qed

lemma ref_uvw_progress:
  assumes "good (stream p)" and "gpos (stream p) < length (buf (stream p))"
    and "\<not> isspace (buf (stream p) ! gpos (stream p))"
    and "0 < length (UVWs this)" and "noUV p = False" and "ref_uvw this p = Inr p'"
  shows "fail (stream p') \<or> gpos (stream p) < gpos (stream p')"
proof -
  let ?s1 = "snd (extract_int (stream p) 0)"
  let ?r2 = "skip_to_separator ?s1 (tmp p)"
  from assms(2) have b: "gpos (stream p) \<le> length (buf (stream p))" by simp
  have f1: "follows (stream p) ?s1" by (rule extract_int_follows [OF b])
  have f2: "follows ?s1 (snd ?r2)"
    by (rule skip_to_separator_follows [OF follows_bound [OF f1]])
  from assms(4-6) have "stream p' = snd ?r2"
    by (auto simp: ref_uvw_def Let_def case_prod_beta split: sum.splits if_splits)
  with f2 extract_int_progress [OF assms(1-3), of 0] show ?thesis
    by (auto simp: follows_def)
qed

lemma ref_normal_follows:
  assumes "gpos (stream p) \<le> length (buf (stream p))" and "ref_normal this p = Inr p'"
  shows "follows (stream p) (stream p')"
proof (cases "0 < length (normals this)")
  case False
  with assms show ?thesis by (auto simp: ref_normal_def follows_refl)
next
  case True
  let ?s1 = "snd (extract_int (stream p) 0)"
  let ?r2 = "skip_to_separator ?s1 (tmp p)"
  have f1: "follows (stream p) ?s1" by (rule extract_int_follows [OF assms(1)])
  have f2: "follows ?s1 (snd ?r2)"
    by (rule skip_to_separator_follows [OF follows_bound [OF f1]])
  from assms(2) True have "stream p' = snd ?r2"
    by (auto simp: ref_normal_def Let_def case_prod_beta split: sum.splits if_splits)
  with f1 f2 show ?thesis by (auto intro: follows_trans)
qed

lemma ref_normal_progress:
  assumes "good (stream p)" and "gpos (stream p) < length (buf (stream p))"
    and "\<not> isspace (buf (stream p) ! gpos (stream p))"
    and "0 < length (normals this)" and "ref_normal this p = Inr p'"
  shows "fail (stream p') \<or> gpos (stream p) < gpos (stream p')"
proof -
  let ?s1 = "snd (extract_int (stream p) 0)"
  let ?r2 = "skip_to_separator ?s1 (tmp p)"
  from assms(2) have b: "gpos (stream p) \<le> length (buf (stream p))" by simp
  have f1: "follows (stream p) ?s1" by (rule extract_int_follows [OF b])
  have f2: "follows ?s1 (snd ?r2)"
    by (rule skip_to_separator_follows [OF follows_bound [OF f1]])
  from assms(4,5) have "stream p' = snd ?r2"
    by (auto simp: ref_normal_def Let_def case_prod_beta split: sum.splits if_splits)
  with f2 extract_int_progress [OF assms(1-3), of 0] show ?thesis
    by (auto simp: follows_def)
qed

lemma ref_vertex_skips:
  "\<not> 0 < length (vertices this) \<Longrightarrow> ref_vertex this p = Inr p"
  by (simp add: ref_vertex_def)

lemma ref_uvw_skips:
  "\<not> 0 < length (UVWs this) \<Longrightarrow> ref_uvw this p = Inr p"
  by (simp add: ref_uvw_def)

lemma ref_body_progress:
  assumes pools: "vertices this \<noteq> [] \<or> UVWs this \<noteq> [] \<or> normals this \<noteq> []"
    and "good (stream p)" and "gpos (stream p) < length (buf (stream p))"
    and "\<not> isspace (buf (stream p) ! gpos (stream p))"
    and "ref_body this p = Inr p'"
  shows "follows (stream p) (stream p') \<and>
         (fail (stream p') \<or> gpos (stream p) < gpos (stream p'))"
proof -
  let ?p0 = "p\<lparr>noUV := False\<rparr>"
  from assms(5) obtain p1 p2 where
    v: "ref_vertex this ?p0 = Inr p1" and u: "ref_uvw this p1 = Inr p2" and
    n: "ref_normal this p2 = Inr p'"
    by (auto simp: ref_body_def split: sum.splits)
  from assms(3) have b: "gpos (stream ?p0) \<le> length (buf (stream ?p0))" by simp
  have fv: "follows (stream ?p0) (stream p1)" by (rule ref_vertex_follows [OF b v])
  have fu: "follows (stream p1) (stream p2)"
    by (rule ref_uvw_follows [OF follows_bound [OF fv] u])
  have fn: "follows (stream p2) (stream p')"
    by (rule ref_normal_follows [OF follows_bound [OF fu] n])
  from fv fu fn have all: "follows (stream p) (stream p')"
    by (auto intro: follows_trans)
  have "fail (stream p') \<or> gpos (stream p) < gpos (stream p')"
  proof (cases "0 < length (vertices this)")
    case True
    from ref_vertex_progress [of ?p0 this p1] assms(2-4) True v
    have "fail (stream p1) \<or> gpos (stream p) < gpos (stream p1)" by simp
    with fu fn show ?thesis by (auto simp: follows_def)
  next
    case nv: False
    with v have p1: "p1 = ?p0" by (simp add: ref_vertex_skips)
    show ?thesis
    proof (cases "0 < length (UVWs this)")
      case True
      from ref_uvw_progress [of ?p0 this p2] assms(2-4) True u p1
      have "fail (stream p2) \<or> gpos (stream p) < gpos (stream p2)" by simp
      with fn show ?thesis by (auto simp: follows_def)
    next
      case nu: False
      with u p1 have p2: "p2 = ?p0" by (simp add: ref_uvw_skips)
      from pools nv nu have "0 < length (normals this)" by simp
      from ref_normal_progress [of ?p0 this p'] assms(2-4) this n p2
      show ?thesis by simp
    qed
  qed
  with all show ?thesis by simp
qed

lemma ws_continues:
  assumes "\<not> fail (ws s)" and "\<not> eofbit (ws s)" and "gpos s \<le> length (buf s)"
  shows "good (ws s) \<and> buf (ws s) = buf s \<and> gpos s \<le> gpos (ws s) \<and>
         gpos (ws s) < length (buf s) \<and> \<not> isspace (buf s ! gpos (ws s))"
proof -
  from assms(1) have g: "good s" by (auto simp: ws_def fail_def split: if_splits)
  with assms(2) have w: "ws s = skip_space s" and e: "\<not> at_end (skip_space s)"
    by (auto simp: ws_def Let_def split: if_splits)
  let ?t = "takeWhile isspace (drop (gpos s) (buf s))"
  from e have lt: "gpos s + length ?t < length (buf s)"
    by (simp add: at_end_def skip_space_def unread_def)
  then have "length ?t < length (drop (gpos s) (buf s))" by simp
  then have "\<not> isspace (drop (gpos s) (buf s) ! length ?t)" by (rule nth_length_takeWhile)
  with lt have "\<not> isspace (buf s ! (gpos s + length ?t))" by simp
  with g lt show ?thesis
    by (simp add: w skip_space_def unread_def good_def)
qed

lemma face_refs_stops_on_fail:
  "fail (stream p) \<Longrightarrow> face_refs this p = Some (Inr (p\<lparr>stream := ws (stream p)\<rparr>))"
  by (subst face_refs.simps) (auto simp: Let_def ws_def fail_def good_def)

lemma face_refs_returns:
  assumes pools: "vertices this \<noteq> [] \<or> UVWs this \<noteq> [] \<or> normals this \<noteq> []"
    and "gpos (stream p) \<le> length (buf (stream p))"
  shows "\<exists>r. face_refs this p = Some r"
  using assms(2)
proof (induction "length (buf (stream p)) - gpos (stream p)" arbitrary: p rule: less_induct)
  case less
  let ?s = "ws (stream p)"
  show ?case
  proof (cases "\<not> fail ?s \<and> \<not> eofbit ?s")
    case False
    then show ?thesis by (subst face_refs.simps) (auto simp: Let_def)
  next
    case True
    with ws_continues [of "stream p"] less.prems have
      w: "good ?s" "buf ?s = buf (stream p)" "gpos (stream p) \<le> gpos ?s"
         "gpos ?s < length (buf (stream p))" "\<not> isspace (buf (stream p) ! gpos ?s)"
      by auto
    let ?p = "p\<lparr>stream := ?s\<rparr>"
    show ?thesis
    proof (cases "ref_body this ?p")
      case (Inl e)
      with True show ?thesis by (subst face_refs.simps) (auto simp: Let_def)
    next
      case (Inr p')
      with True have step: "face_refs this p = face_refs this p'"
        by (subst face_refs.simps) (auto simp: Let_def)
      from ref_body_progress [OF pools, of ?p p'] w Inr have
        f: "follows ?s (stream p')" and
        d: "fail (stream p') \<or> gpos ?s < gpos (stream p')" by auto
      show ?thesis
      proof (cases "fail (stream p')")
        case True
        with step face_refs_stops_on_fail [of p' this] show ?thesis by simp
      next
        case False
        with d have "gpos ?s < gpos (stream p')" by simp
        with f w have "length (buf (stream p')) - gpos (stream p') <
                       length (buf (stream p)) - gpos (stream p)"
          and "gpos (stream p') \<le> length (buf (stream p'))"
          by (auto simp: follows_def)
        from less.hyps [OF this] step show ?thesis by simp
      qed
    qed
  qed
qed


lemma extract_string_follows:
  assumes "gpos s \<le> length (buf s)"
  shows "follows s (snd (extract_string s w))"
proof (cases "fst (sentry s)")
  case False
  with assms skip_space_bound [OF assms] show ?thesis
    by (auto simp: extract_string_def sentry_def follows_def fail_def Let_def skip_space_def
          split: if_splits prod.splits)
next
  case True
  then have st: "sentry s = (True, skip_space s)"
    by (auto simp: sentry_def Let_def split: if_splits)
  let ?s = "skip_space s"
  let ?w = "takeWhile (\<lambda>c. \<not> isspace c) (unread ?s)"
  have "length ?w \<le> length (unread ?s)" by (rule length_takeWhile_le)
  moreover have "length (unread ?s) = length (buf s) - gpos ?s"
    by (simp add: unread_def skip_space_def)
  moreover note skip_space_bound [OF assms]
  moreover have "gpos s \<le> gpos ?s" "buf ?s = buf s" "fail ?s = fail s"
    by (simp_all add: skip_space_def fail_def)
  ultimately show ?thesis
    by (auto simp: extract_string_def st follows_def fail_def Let_def)
qed

lemma after_word1_bound: "gpos (after_word1 l) \<le> length (buf (after_word1 l))"
proof -
  have "follows (istringstream_new (chars l)) (after_word1 l)"
    unfolding after_word1_def
    by (rule extract_string_follows) (simp add: istringstream_new_def)
  then show ?thesis by (rule follows_bound)
qed

lemma object_line_face_returns:
  assumes "word1 l = ''f''"
    and "vertices (model st) \<noteq> [] \<or> UVWs (model st) \<noteq> [] \<or> normals (model st) \<noteq> []"
  shows "\<exists>r. object_line fs path l st = Some r"
proof -
  from face_refs_returns [OF assms(2), of
      "\<lparr>stream = after_word1 l, tmp = temp st, noUV = False,
        tempVertices = [], tempNormals = [], tempUVWs = []\<rparr>"] after_word1_bound [of l]
  obtain r where "face_refs (model st)
      \<lparr>stream = after_word1 l, tmp = temp st, noUV = False,
       tempVertices = [], tempNormals = [], tempUVWs = []\<rparr> = Some r" by auto
  then show ?thesis
    by (cases r) (simp_all add: object_line_face [OF assms(1)] face_line_def)
qed

text \<open>The channel loop on one pixel of three and of four bytes, whatever the bytes are.\<close>

lemma swap_loop_pixel24: "swap_loop 0 3 3 [a, b, c] = Some (Inr [c, a, c])"
  by (simp add: swap_loop.simps)

lemma swap_loop_pixel32: "swap_loop 0 4 4 [a, b, c, d] = Some (Inr [c, a, c, d])"
  by (simp add: swap_loop.simps)

text \<open>The index of the current group stays an index of the vector of objects.\<close>

lemma object_line_valid:
  assumes "object_line fs path l st = Some (Inr st')"
    and "defaultObject st < length (objects (model st))"
    and "currentGroup st < length (objects (model st))"
  shows "defaultObject st' < length (objects (model st')) \<and>
         currentGroup st' < length (objects (model st'))"
proof -
  from object_line_frame [OF assms(1)] have
    d: "defaultObject st' = defaultObject st" and
    n: "length (objects (model st)) \<le> length (objects (model st'))" by auto
  have "currentGroup st' < length (objects (model st'))"
  proof (cases "word1 l = ''g''")
    case False
    from object_line_keeps_group [OF False assms(1)] assms(3) n show ?thesis by simp
  next
    case g: True
    show ?thesis
    proof (cases "word2 l = ''default''")
      case True
      from object_line_g_default [OF g True, of fs path st] assms(1,2) show ?thesis by auto
    next
      case False
      from object_line_g_new [OF g False, of fs path st] assms(1) show ?thesis by auto
    qed
  qed
  with d n assms(2) show ?thesis by simp
qed

lemma object_lines_valid:
  "object_lines fs path ls st = Some (Inr st') \<Longrightarrow>
   defaultObject st < length (objects (model st)) \<Longrightarrow>
   currentGroup st < length (objects (model st)) \<Longrightarrow>
   defaultObject st' < length (objects (model st')) \<and>
   currentGroup st' < length (objects (model st'))"
proof (induction ls arbitrary: st)
  case Nil
  then show ?case by simp
next
  case (Cons l ls)
  show ?case
  proof (cases "getline_ok l")
    case False
    with Cons.prems show ?thesis by simp
  next
    case True
    with Cons.prems obtain sm where
      l: "object_line fs path l st = Some (Inr sm)" and
      ls: "object_lines fs path ls sm = Some (Inr st')"
      by (auto split: option.splits sum.splits)
    from object_line_valid [OF l Cons.prems(2,3)] Cons.IH [OF ls] show ?thesis by simp
  qed
qed

lemma object_lines_keep_material:
  "\<forall>m \<in> set ls. word1 m \<noteq> ''usemtl'' \<Longrightarrow> object_lines fs path ls st = Some (Inr st') \<Longrightarrow>
   currentMaterial st' = currentMaterial st"
proof (induction ls arbitrary: st)
  case Nil
  then show ?case by simp
next
  case (Cons l ls)
  show ?case
  proof (cases "getline_ok l")
    case False
    with Cons.prems show ?thesis by simp
  next
    case True
    with Cons.prems obtain sm where
      l: "object_line fs path l st = Some (Inr sm)" and
      ls: "object_lines fs path ls sm = Some (Inr st')"
      by (auto split: option.splits sum.splits)
    from Cons.prems have "word1 l \<noteq> ''usemtl''" "\<forall>m \<in> set ls. word1 m \<noteq> ''usemtl''"
      by auto
    with Cons.IH [OF _ ls] object_line_keeps_material [OF _ l] show ?thesis by simp
  qed
qed

lemma object_line_face_explicit:
  assumes "word1 l = ''f''" and "object_line fs path l st = Some (Inr st')"
  shows "\<exists>f. objects (model st') =
             (objects (model st))
               [currentGroup st := (objects (model st) ! currentGroup st)
                  \<lparr>faces := faces (objects (model st) ! currentGroup st) @ [f]\<rparr>] \<and>
           material f = currentMaterial st"
proof -
  from object_line_face_pushes [OF assms] obtain f where
    "model st' = push_face (model st) (currentGroup st) f" "material f = currentMaterial st"
    by blast
  then show ?thesis by (auto simp: push_face_def)
qed

text \<open>The start of the reading loop in \<^verbatim>\<open>loadObject\<close>.\<close>

lemma loadObject_runs_loop:
  assumes "fs in_filename = Some istr" and "directory_of in_filename = Inr path"
  shows "loadObject fs junk in_filename this gl0 =
     (case object_lines fs path (lines istr)
             \<lparr>model = this\<lparr>filename := in_filename, UVWs := [], normals := [],
                             vertices := [], materials := [], displayList := 0,
                             objectLoaded := False, objects := [GroupObject_new]\<rparr>,
              gl = gl0, defaultObject = 0, currentGroup = 0, currentMaterial = None,
              temp = junk\<rparr> of
        None \<Rightarrow> None
      | Some (Inl e) \<Rightarrow> Some (Inl e)
      | Some (Inr st) \<Rightarrow> Some (Inr (True, bounds (model st), gl st)))"
  using assms by (simp add: loadObject_def deleteObjects_def Let_def)

text \<open>What a library adds to the pool of materials.\<close>

lemma through_material_names:
  assumes "through_material st f = Some (Inr st')" and "\<And>m. name (f m) = name m"
    and "\<forall>i. mtl_material st = Some i \<longrightarrow> n \<le> i"
  shows "take n (materials (mtl_model st')) = take n (materials (mtl_model st)) \<and>
         map name (materials (mtl_model st')) = map name (materials (mtl_model st)) \<and>
         mtl_material st' = mtl_material st"
proof -
  let ?ms = "materials (mtl_model st)"
  from assms(1) obtain i where i: "mtl_material st = Some i" and
    st': "st' = st\<lparr>mtl_model := (mtl_model st)\<lparr>materials := ?ms[i := f (?ms ! i)]\<rparr>\<rparr>"
    by (auto simp: through_material_def split: option.splits)
  from assms(3) i have "n \<le> i" by simp
  then have t: "take n (?ms[i := f (?ms ! i)]) = take n ?ms" by simp
  have "map name (?ms[i := f (?ms ! i)]) = map name ?ms"
  proof (cases "i < length ?ms")
    case True
    then show ?thesis by (simp add: map_update assms(2) list_update_same_conv)
  next
    case False
    then have "length ?ms \<le> i" by simp
    then show ?thesis by (simp add: list_update_beyond)
  qed
  with t st' show ?thesis by simp
qed

lemma load_map_names:
  assumes "load_map fs path s st store = Some (Inr st')"
    and "\<And>t m. name (store t m) = name m"
    and "\<forall>i. mtl_material st = Some i \<longrightarrow> n \<le> i"
  shows "take n (materials (mtl_model st')) = take n (materials (mtl_model st)) \<and>
         map name (materials (mtl_model st')) = map name (materials (mtl_model st)) \<and>
         mtl_material st' = mtl_material st"
proof -
  from assms(1) obtain t d where
    "through_material (st\<lparr>mtl_gl := d\<rparr>) (store t) = Some (Inr st')"
    by (auto simp: load_map_def Let_def split: option.splits sum.splits)
  from through_material_names [OF this, of n] assms(2,3) show ?thesis by simp
qed

lemma material_line_names:
  assumes "material_line fs path l st = Some (Inr st')"
    and "\<forall>i. mtl_material st = Some i \<longrightarrow> n \<le> i"
    and "n \<le> length (materials (mtl_model st))"
  shows "take n (materials (mtl_model st')) = take n (materials (mtl_model st)) \<and>
         map name (materials (mtl_model st')) =
           map name (materials (mtl_model st)) @ map word2 [m \<leftarrow> [l]. word1 m = ''newmtl''] \<and>
         (\<forall>i. mtl_material st' = Some i \<longrightarrow> n \<le> i) \<and>
         n \<le> length (materials (mtl_model st'))"
proof (cases "word1 l = ''newmtl''")
  case True
  from material_line_newmtl [OF True, of fs path st] assms True show ?thesis by auto
next
  case False
  have "take n (materials (mtl_model st')) = take n (materials (mtl_model st)) \<and>
        map name (materials (mtl_model st')) = map name (materials (mtl_model st)) \<and>
        mtl_material st' = mtl_material st"
    using assms(1) False
    unfolding material_line_def Let_def case_prod_beta word1_def
    by (simp split: if_split_asm)
       (erule through_material_names load_map_names; simp add: assms(2))+
  moreover from this have "length (materials (mtl_model st')) = length (materials (mtl_model st))"
    by (metis length_map)
  ultimately show ?thesis using False assms(2,3) by simp
qed

lemma material_lines_names:
  "material_lines fs path ls st = Some (Inr st') \<Longrightarrow> \<forall>l \<in> set ls. getline_ok l \<Longrightarrow>
   \<forall>i. mtl_material st = Some i \<longrightarrow> n \<le> i \<Longrightarrow> n \<le> length (materials (mtl_model st)) \<Longrightarrow>
   take n (materials (mtl_model st')) = take n (materials (mtl_model st)) \<and>
   map name (materials (mtl_model st')) =
     map name (materials (mtl_model st)) @ map word2 [m \<leftarrow> ls. word1 m = ''newmtl'']"
proof (induction ls arbitrary: st)
  case Nil
  then show ?case by simp
next
  case (Cons l ls)
  from Cons.prems obtain sm where
    l: "material_line fs path l st = Some (Inr sm)" and
    ls: "material_lines fs path ls sm = Some (Inr st')"
    by (auto split: option.splits sum.splits)
  note a = material_line_names [OF l Cons.prems(3,4)]
  from Cons.prems(2) have "\<forall>l \<in> set ls. getline_ok l" by simp
  from Cons.IH [OF ls this] a have
    "take n (materials (mtl_model st')) = take n (materials (mtl_model sm))"
    "map name (materials (mtl_model st')) =
       map name (materials (mtl_model sm)) @ map word2 [m \<leftarrow> ls. word1 m = ''newmtl'']"
    by auto
  with a show ?case by simp
qed

lemma material_lines_keeps:
  "material_lines fs path ls st = Some (Inr st') \<Longrightarrow>
   \<forall>i. mtl_material st = Some i \<longrightarrow> n \<le> i \<Longrightarrow> n \<le> length (materials (mtl_model st)) \<Longrightarrow>
   take n (materials (mtl_model st')) = take n (materials (mtl_model st))"
proof (induction ls arbitrary: st)
  case Nil
  then show ?case by simp
next
  case (Cons l ls)
  show ?case
  proof (cases "getline_ok l")
    case False
    with Cons.prems show ?thesis by simp
  next
    case True
    with Cons.prems obtain sm where
      l: "material_line fs path l st = Some (Inr sm)" and
      ls: "material_lines fs path ls sm = Some (Inr st')"
      by (auto split: option.splits sum.splits)
    note a = material_line_names [OF l Cons.prems(2,3)]
    from Cons.IH [OF ls] a show ?thesis by simp
  qed
qed

lemma loadMaterials_keeps:
  assumes "loadMaterials fs n this dev = Some (Inr (this', dev'))"
  shows "take (length (materials this)) (materials this') = materials this"
proof (cases "fs n")
  case None
  with assms show ?thesis by (simp add: loadMaterials_def)
next
  case (Some lib)
  with assms obtain path st' where
    "material_lines fs path (lines lib)
       \<lparr>mtl_model = this, mtl_gl = dev, mtl_material = None\<rparr> = Some (Inr st')"
    "this' = mtl_model st'"
    by (auto simp: loadMaterials_def split: sum.splits option.splits)
  from material_lines_keeps [OF this(1), of "length (materials this)"] this(2)
  show ?thesis by simp
qed

lemma take_prefix_trans:
  assumes "take (length xs) ys = xs" and "take (length ys) zs = ys"
  shows "take (length xs) zs = xs"
proof -
  from assms(1) have "length (take (length xs) ys) = length xs" by simp
  then have "length xs \<le> length ys" by simp
  then have "take (length xs) zs = take (length xs) (take (length ys) zs)" by (simp add: min_def)
  with assms show ?thesis by simp
qed

lemma mtllib_loop_keeps:
  assumes "mtllib_loop fs path s w this dev = Some r"
  shows "case r of Inl e \<Rightarrow> True
         | Inr md \<Rightarrow> take (length (materials this)) (materials (fst md)) = materials this"
  using assms
proof (induction fs path s w this dev r rule: mtllib_loop.raw_induct [rotated, consumes 1])
  case (1 mtllib_loop fs path s w this dev r)
  show ?case
  proof (cases "fail (snd (extract_string s w))")
    case True
    with 1(2) show ?thesis by (auto simp: Let_def)
  next
    case False
    show ?thesis
    proof (cases "loadMaterials fs (path @ fst (extract_string s w)) this dev")
      case None
      with 1(2) False show ?thesis by (simp add: Let_def)
    next
      case (Some a)
      show ?thesis
      proof (cases a)
        case (Inl e)
        with 1(2) False Some show ?thesis by (auto simp: Let_def)
      next
        case (Inr md)
        with 1(2) False Some have
          rec: "mtllib_loop fs path (snd (extract_string s w)) (fst (extract_string s w))
                  (fst md) (snd md) = Some r"
          by (simp add: Let_def)
        from Some Inr have k: "take (length (materials this)) (materials (fst md)) = materials this"
          using loadMaterials_keeps [of fs _ this dev "fst md" "snd md"] by simp
        show ?thesis
        proof (cases r)
          case (Inl e)
          then show ?thesis by simp
        next
          case (Inr md')
          with 1(1) [OF rec] have
            "take (length (materials (fst md))) (materials (fst md')) = materials (fst md)"
            by simp
          with k Inr show ?thesis by (simp add: take_prefix_trans)
        qed
      qed
    qed
  qed
qed

lemma object_line_materials:
  assumes "object_line fs path l st = Some (Inr st')"
  shows "take (length (materials (model st))) (materials (model st')) = materials (model st)"
proof -
  consider (lib) "word1 l = ''mtllib''" | (f) "word1 l = ''f''"
    | (other) "word1 l \<noteq> ''mtllib''" "word1 l \<noteq> ''f''" by blast
  then show ?thesis
  proof cases
    case lib
    with assms obtain md where
      "mtllib_loop fs path (after_word1 l) [] (model st) (gl st) = Some (Inr md)"
      "st' = st\<lparr>model := fst md, gl := snd md\<rparr>"
      by (auto simp: object_line_def Let_def word1_def after_word1_def case_prod_beta
            split: option.splits sum.splits)
    with mtllib_loop_keeps [of fs path "after_word1 l" "[]" "model st" "gl st" "Inr md"]
    show ?thesis by simp
  next
    case f
    with assms face_line_returns [of "after_word1 l" st st'] show ?thesis
      by (auto simp: object_line_face push_face_def)
  next
    case other
    with assms show ?thesis
      by (auto simp: object_line_def Let_def word1_def case_prod_beta split: if_split_asm)
  qed
qed

lemma object_lines_materials:
  "object_lines fs path ls st = Some (Inr st') \<Longrightarrow>
   take (length (materials (model st))) (materials (model st')) = materials (model st)"
proof (induction ls arbitrary: st)
  case Nil
  then show ?case by simp
next
  case (Cons l ls)
  show ?case
  proof (cases "getline_ok l")
    case False
    with Cons.prems show ?thesis by simp
  next
    case True
    with Cons.prems obtain sm where
      l: "object_line fs path l st = Some (Inr sm)" and
      ls: "object_lines fs path ls sm = Some (Inr st')"
      by (auto split: option.splits sum.splits)
    from object_line_materials [OF l] Cons.IH [OF ls] show ?thesis
      by (rule take_prefix_trans)
  qed
qed

text \<open>
  A colour line with one number: the second component is kept when the line ends there
  and becomes 0 when characters that are not a number follow; a \<^verbatim>\<open>Ns\<close> line without a
  number keeps the shininess.
\<close>

lemma partial_colour_keeps_targets:
  "material_line no_files ''./'' \<lparr>chars = ''Kd 0.5'', floats = [1 / 2], malformed = False\<rparr>
     mtl_state_A =
   Some (Inr (mtl_state_A\<lparr>mtl_model := (mtl_model mtl_state_A)
     \<lparr>materials := [Material_new\<lparr>name := ''A'', Kd := [1 / 2, 1, 1, 1]\<rparr>]\<rparr>\<rparr>)) \<and>
   material_line no_files ''./'' \<lparr>chars = ''Kd 0.5 x'', floats = [1 / 2], malformed = True\<rparr>
     mtl_state_A =
   Some (Inr (mtl_state_A\<lparr>mtl_model := (mtl_model mtl_state_A)
     \<lparr>materials := [Material_new\<lparr>name := ''A'', Kd := [1 / 2, 0, 1, 1]\<rparr>]\<rparr>\<rparr>)) \<and>
   material_line no_files ''./'' \<lparr>chars = ''Ns'', floats = [], malformed = False\<rparr>
     mtl_state_A = Some (Inr mtl_state_A)"
  by (simp add: material_line_def through_material_def mtl_state_A_def Model_init_def
        Material_new_def stream_defs Let_def)

lemma loadObject_loop_valid:
  assumes "object_lines fs path ls
             \<lparr>model = this\<lparr>objects := [GroupObject_new]\<rparr>, gl = gl0, defaultObject = 0,
              currentGroup = 0, currentMaterial = None, temp = junk\<rparr> = Some (Inr st)"
  shows "defaultObject st = 0 \<and> currentGroup st < length (objects (model st))"
  using object_lines_valid [OF assms] object_lines_frame [OF assms] by simp

section \<open>Results about the loaders\<close>

text \<open>
  C1. Loading the scene with the vertices \<open>(0,0,0)\<close>, \<open>(1,0,0)\<close>, \<open>(0,1,0)\<close> and the face
  \<^verbatim>\<open>f 1 2 3\<close> returns with one face whose \<open>faceCenter\<close> is \<open>(1, 1, 0)\<close>, the sum of the
  three positions: the division by the number of vertices is computed and thrown away
  (\<open>fill_face_faceCenter\<close> gives the sum for every face). The mean would be
  \<open>(1/3, 1/3, 0)\<close>.
\<close>

theorem C1_triangle_faceCenter:
  "loadObject triangle_fs junk ''./tri.obj'' Model_init [] =
     Some (Inr (True,
       \<lparr>objects =
          [\<lparr>faces = [\<lparr>face_vertices = [0, 1, 2], face_normals = [], face_UVWs = [],
                       material = None, faceCenter = Vector3 1 1 0,
                       faceNormal = Vector3 0 0 1\<rparr>],
            objectName = [], groupName = []\<rparr>],
        vertices = [Vector3 0 0 0, Vector3 1 0 0, Vector3 0 1 0],
        normals = [], UVWs = [], materials = [],
        boundingPoints =
          Some [Vector3 1 0 0, Vector3 0 1 0, Vector3 0 0 0, Vector3 0 1 0,
                Vector3 1 1 0, Vector3 1 0 0, Vector3 0 0 0, Vector3 1 1 0],
        radius = Some (sqrt 2 / 2), center = Vector3 1 1 0, objectLoaded = True,
        displayList = 0, filename = ''./tri.obj''\<rparr>, []))"
  by (simp add: triangle_fs_def text_file_def Model_init_def load_defs face_defs stream_defs
        Let_def)

text \<open>
  C2. Loading the two vertices \<open>(0,0,0)\<close> and \<open>(2,0,0)\<close> gives the radius 1, half the
  diagonal of the bounding box, and the centre \<open>(2,0,0)\<close>; loading the single vertex
  \<open>(5,6,7)\<close> gives the radius 0 and the centre \<open>(0,0,0)\<close>. The centre is the sum of all
  vertices but the first, not divided: the means would be \<open>(1,0,0)\<close> and \<open>(5,6,7)\<close>.
\<close>

theorem C2_center_and_radius:
  "loadObject points_fs junk ''./two.obj'' Model_init [] =
     Some (Inr (True,
       \<lparr>objects = [\<lparr>faces = [], objectName = [], groupName = []\<rparr>],
        vertices = [Vector3 0 0 0, Vector3 2 0 0], normals = [], UVWs = [], materials = [],
        boundingPoints =
          Some [Vector3 2 0 0, Vector3 0 0 0, Vector3 0 0 0, Vector3 0 0 0,
                Vector3 2 0 0, Vector3 2 0 0, Vector3 0 0 0, Vector3 2 0 0],
        radius = Some 1, center = Vector3 2 0 0, objectLoaded = True,
        displayList = 0, filename = ''./two.obj''\<rparr>, [])) \<and>
   loadObject points_fs junk ''./one.obj'' Model_init [] =
     Some (Inr (True,
       \<lparr>objects = [\<lparr>faces = [], objectName = [], groupName = []\<rparr>],
        vertices = [Vector3 5 6 7], normals = [], UVWs = [], materials = [],
        boundingPoints = Some (replicate 8 (Vector3 5 6 7)),
        radius = Some 0, center = Vector3 0 0 0, objectLoaded = True,
        displayList = 0, filename = ''./one.obj''\<rparr>, []))"
  by (simp add: points_fs_def text_file_def Model_init_def load_defs face_defs stream_defs
        Let_def numeral_eq_Suc)

text \<open>
  C4. Decoding the image of the pixels \<open>1 2 3\<close> and \<open>4 5 6\<close> succeeds with the buffer
  \<open>3 1 3\<close>, \<open>6 4 6\<close>: in each pixel the first byte becomes the third, the second becomes the
  old first, and the third stays. An exchange of the first and third bytes would give
  \<open>3 2 1\<close>, \<open>6 5 4\<close>.
\<close>

theorem C4_channels:
  "loadTGA pixel_fs ''./two.tga'' Texture_init [] =
     Some (Inr (True,
       \<lparr>imageData = Pixels [3, 1, 3, 6, 4, 6], bpp = Some 24, width = Some 2,
        height = Some 1, texID = Some 1, tex_name = []\<rparr>,
       [\<lparr>gl_type = GL_RGB, gl_width = 2, gl_height = 1, gl_data = [3, 1, 3, 6, 4, 6]\<rparr>]))"
  by (simp add: pixel_fs_def binary_file_def Texture_init_def tga_defs Let_def)

text \<open>
  C8. An image whose header has type 2, depth 24 and the width and height fields
  \<open>-1\<close>, followed by three bytes, is decoded with success and uploaded to the device: the
  fields are stored in \<^verbatim>\<open>unsigned int\<close> members, where \<^verbatim>\<open>width <= 0\<close> only rejects
  zero, and the size \<open>(-1) * (-1) * 3\<close> wraps around to 3.
\<close>

theorem C8_negative_size_accepted:
  "loadTGA pixel_fs ''./neg.tga'' Texture_init [] =
     Some (Inr (True,
       \<lparr>imageData = Pixels [3, 1, 3], bpp = Some 24, width = Some (- 1),
        height = Some (- 1), texID = Some 1, tex_name = []\<rparr>,
       [\<lparr>gl_type = GL_RGB, gl_width = - 1, gl_height = - 1, gl_data = [3, 1, 3]\<rparr>]))"
  by (simp add: pixel_fs_def binary_file_def Texture_init_def tga_defs Let_def)

text \<open>
  C5 (as corrected). When the scene file cannot be opened, \<^verbatim>\<open>loadObject\<close> returns
  \<^verbatim>\<open>false\<close>; the device and every field of the model are as before, except the source
  path, which is the path that was asked for.
\<close>

theorem C5_unreadable_file:
  "fs in_filename = None \<Longrightarrow>
   loadObject fs junk in_filename this gl0 =
     Some (Inr (False, this\<lparr>filename := in_filename\<rparr>, gl0))"
  by (simp add: loadObject_def)

text \<open>The theorem at a file system without files.\<close>

theorem C5_unreadable_file_witness:
  "no_files ''missing.obj'' = None \<and>
   loadObject no_files (CHR ''x'') ''missing.obj'' Model_init [] =
     Some (Inr (False, Model_init\<lparr>filename := ''missing.obj''\<rparr>, []))"
  using C5_unreadable_file [of no_files "''missing.obj''" "CHR ''x''" Model_init "[]"]
  by (simp add: no_files_def)

text \<open>
  C5 as stated fails: after the failed load the source path is no longer the one the
  model had.
\<close>

theorem C5_source_path_modified:
  "loadObject no_files (CHR ''x'') ''missing.obj'' Model_init [] =
     Some (Inr (False, Model_init\<lparr>filename := ''missing.obj''\<rparr>, [])) \<and>
   filename (Model_init\<lparr>filename := ''missing.obj''\<rparr>) \<noteq> filename Model_init"
  by (simp add: loadObject_def Model_init_def no_files_def)


text \<open>
  C6 (as corrected). A \<^verbatim>\<open>usemtl\<close> line returns and leaves the model as it is. When a
  material of the pool has the name given, the active material becomes the first such
  entry; when none has, the active material stays what it was. An \<^verbatim>\<open>f\<close> line that
  returns appends one face to the faces of the current group, bound to the active
  material, and no line other than a \<^verbatim>\<open>usemtl\<close> line changes the active material. So
  in a state of the reading loop whose group indices are valid, after a \<^verbatim>\<open>usemtl\<close> line
  and any lines that are not \<^verbatim>\<open>usemtl\<close> lines, the pool still starts with the entries it
  had, and the face of an \<^verbatim>\<open>f\<close> line that returns is appended to the current group with
  the first entry of that name as its material, or, when no entry has the name, with the
  material that was active before the \<^verbatim>\<open>usemtl\<close> line.
\<close>

theorem C6_usemtl_keeps_material:
  "(word1 l = ''usemtl'' \<longrightarrow>
      (\<exists>st'. object_line fs path l st = Some (Inr st') \<and> model st' = model st \<and>
         (if \<exists>m \<in> set (materials (model st)). name m = word2 l
          then \<exists>k<length (materials (model st)).
                 currentMaterial st' = Some k \<and> name (materials (model st) ! k) = word2 l \<and>
                 (\<forall>j<k. name (materials (model st) ! j) \<noteq> word2 l)
          else currentMaterial st' = currentMaterial st))) \<and>
   (word1 l = ''f'' \<and> object_line fs path l st = Some (Inr st') \<longrightarrow>
      (\<exists>f. objects (model st') =
             (objects (model st))
               [currentGroup st := (objects (model st) ! currentGroup st)
                  \<lparr>faces := faces (objects (model st) ! currentGroup st) @ [f]\<rparr>] \<and>
           material f = currentMaterial st)) \<and>
   (word1 l \<noteq> ''usemtl'' \<and> object_line fs path l st = Some (Inr st') \<longrightarrow>
      currentMaterial st' = currentMaterial st) \<and>
   (defaultObject st < length (objects (model st)) \<and>
    currentGroup st < length (objects (model st)) \<and>
    word1 l = ''usemtl'' \<and> getline_ok l \<and> (\<forall>m \<in> set mid. word1 m \<noteq> ''usemtl'') \<and>
    object_lines fs path (l # mid) st = Some (Inr sm) \<and>
    word1 lf = ''f'' \<and> object_line fs path lf sm = Some (Inr st') \<longrightarrow>
      currentGroup sm < length (objects (model sm)) \<and>
      take (length (materials (model st))) (materials (model sm)) = materials (model st) \<and>
      (\<exists>f. objects (model st') =
             (objects (model sm))
               [currentGroup sm := (objects (model sm) ! currentGroup sm)
                  \<lparr>faces := faces (objects (model sm) ! currentGroup sm) @ [f]\<rparr>] \<and>
           faces (objects (model st') ! currentGroup sm) =
             faces (objects (model sm) ! currentGroup sm) @ [f] \<and>
           (if \<exists>m \<in> set (materials (model st)). name m = word2 l
            then \<exists>k<length (materials (model st)).
                   material f = Some k \<and> name (materials (model st) ! k) = word2 l \<and>
                   (\<forall>j<k. name (materials (model st) ! j) \<noteq> word2 l)
            else material f = currentMaterial st)))"
proof (intro conjI impI)
  assume u: "word1 l = ''usemtl''"
  let ?ms = "materials (model st)"
  let ?st' = "st\<lparr>currentMaterial := usemtl_loop ?ms 0 (word2 l) (currentMaterial st)\<rparr>"
  have line: "object_line fs path l st = Some (Inr ?st')"
    by (rule object_line_usemtl [OF u])
  show "\<exists>st'. object_line fs path l st = Some (Inr st') \<and> model st' = model st \<and>
         (if \<exists>m \<in> set ?ms. name m = word2 l
          then \<exists>k<length ?ms.
                 currentMaterial st' = Some k \<and> name (?ms ! k) = word2 l \<and>
                 (\<forall>j<k. name (?ms ! j) \<noteq> word2 l)
          else currentMaterial st' = currentMaterial st)"
  proof (cases "\<exists>m \<in> set ?ms. name m = word2 l")
    case True
    from usemtl_loop_match_exists [OF True, of 0 "currentMaterial st"] obtain k where
      "k < length ?ms" "name (?ms ! k) = word2 l" "\<forall>j<k. name (?ms ! j) \<noteq> word2 l"
      "usemtl_loop ?ms 0 (word2 l) (currentMaterial st) = Some k" by auto
    with True line show ?thesis by (intro exI [of _ ?st']) auto
  next
    case False
    then have "usemtl_loop ?ms 0 (word2 l) (currentMaterial st) = currentMaterial st"
      by (intro usemtl_loop_no_match) auto
    with False line show ?thesis by (intro exI [of _ ?st']) auto
  qed
next
  assume "word1 l = ''f'' \<and> object_line fs path l st = Some (Inr st')"
  then show "\<exists>f. objects (model st') =
             (objects (model st))
               [currentGroup st := (objects (model st) ! currentGroup st)
                  \<lparr>faces := faces (objects (model st) ! currentGroup st) @ [f]\<rparr>] \<and>
           material f = currentMaterial st"
    using object_line_face_explicit [of l fs path st st'] by blast
next
  assume "word1 l \<noteq> ''usemtl'' \<and> object_line fs path l st = Some (Inr st')"
  then show "currentMaterial st' = currentMaterial st"
    using object_line_keeps_material [of l fs path st st'] by blast
next
  assume h: "defaultObject st < length (objects (model st)) \<and>
    currentGroup st < length (objects (model st)) \<and>
    word1 l = ''usemtl'' \<and> getline_ok l \<and> (\<forall>m \<in> set mid. word1 m \<noteq> ''usemtl'') \<and>
    object_lines fs path (l # mid) st = Some (Inr sm) \<and>
    word1 lf = ''f'' \<and> object_line fs path lf sm = Some (Inr st')"
  let ?ms = "materials (model st)"
  let ?su = "st\<lparr>currentMaterial := usemtl_loop ?ms 0 (word2 l) (currentMaterial st)\<rparr>"
  from h have line: "object_line fs path l st = Some (Inr ?su)"
    by (intro object_line_usemtl) auto
  moreover from h have ok: "getline_ok l" and
    run: "object_lines fs path (l # mid) st = Some (Inr sm)" by blast+
  ultimately have mid: "object_lines fs path mid ?su = Some (Inr sm)" by simp
  from h object_lines_valid [OF run] show
    v: "currentGroup sm < length (objects (model sm))" by blast
  from object_lines_materials [OF run] show
    "take (length ?ms) (materials (model sm)) = ?ms" .
  from h object_lines_keep_material [OF _ mid] have
    cm: "currentMaterial sm = usemtl_loop ?ms 0 (word2 l) (currentMaterial st)" by simp
  from h object_line_face_explicit [of lf fs path sm st'] obtain f where
    f: "objects (model st') =
          (objects (model sm))
            [currentGroup sm := (objects (model sm) ! currentGroup sm)
               \<lparr>faces := faces (objects (model sm) ! currentGroup sm) @ [f]\<rparr>]"
       "material f = currentMaterial sm" by blast
  from f(1) v have g: "faces (objects (model st') ! currentGroup sm) =
             faces (objects (model sm) ! currentGroup sm) @ [f]" by simp
  have "if \<exists>m \<in> set ?ms. name m = word2 l
        then \<exists>k<length ?ms.
               material f = Some k \<and> name (?ms ! k) = word2 l \<and>
               (\<forall>j<k. name (?ms ! j) \<noteq> word2 l)
        else material f = currentMaterial st"
  proof (cases "\<exists>m \<in> set ?ms. name m = word2 l")
    case True
    from usemtl_loop_match_exists [OF True, of 0 "currentMaterial st"] obtain k where
      "k < length ?ms" "name (?ms ! k) = word2 l" "\<forall>j<k. name (?ms ! j) \<noteq> word2 l"
      "usemtl_loop ?ms 0 (word2 l) (currentMaterial st) = Some k" by auto
    with True f(2) cm show ?thesis by auto
  next
    case False
    then have "usemtl_loop ?ms 0 (word2 l) (currentMaterial st) = currentMaterial st"
      by (intro usemtl_loop_no_match) auto
    with False f(2) cm show ?thesis by auto
  qed
  with f(1) g show "\<exists>f. objects (model st') =
             (objects (model sm))
               [currentGroup sm := (objects (model sm) ! currentGroup sm)
                  \<lparr>faces := faces (objects (model sm) ! currentGroup sm) @ [f]\<rparr>] \<and>
           faces (objects (model st') ! currentGroup sm) =
             faces (objects (model sm) ! currentGroup sm) @ [f] \<and>
           (if \<exists>m \<in> set (materials (model st)). name m = word2 l
            then \<exists>k<length (materials (model st)).
                   material f = Some k \<and> name (materials (model st) ! k) = word2 l \<and>
                   (\<forall>j<k. name (materials (model st) ! j) \<noteq> word2 l)
            else material f = currentMaterial st)"
    by blast
qed

text \<open>
  The theorem at the state with the active material \<open>A\<close>: after \<^verbatim>\<open>usemtl B\<close> (and a
  \<^verbatim>\<open>g default\<close> line) the active material is still \<open>A\<close>, and the face of \<^verbatim>\<open>f 1\<close> is
  appended to the default object with the material \<open>A\<close>.
\<close>

theorem C6_usemtl_keeps_material_witness:
  "word1 (directive ''usemtl B'') = ''usemtl'' \<and>
   (\<exists>st'. object_line no_files ''./'' (directive ''usemtl B'') state_A = Some (Inr st') \<and>
      model st' = model state_A \<and> currentMaterial st' = currentMaterial state_A) \<and>
   word1 (directive ''f 1'') = ''f'' \<and> word1 (directive ''f 1'') \<noteq> ''usemtl'' \<and>
   object_line no_files ''./'' (directive ''f 1'') state_A = Some (Inr state_A_f) \<and>
   (\<exists>f. objects (model state_A_f) =
          (objects (model state_A))
            [currentGroup state_A := (objects (model state_A) ! currentGroup state_A)
               \<lparr>faces := faces (objects (model state_A) ! currentGroup state_A) @ [f]\<rparr>] \<and>
        material f = currentMaterial state_A) \<and>
   currentMaterial state_A_f = currentMaterial state_A \<and>
   defaultObject state_A < length (objects (model state_A)) \<and>
   currentGroup state_A < length (objects (model state_A)) \<and>
   getline_ok (directive ''usemtl B'') \<and> word1 (directive ''g default'') \<noteq> ''usemtl'' \<and>
   object_lines no_files ''./'' [directive ''usemtl B'', directive ''g default''] state_A =
     Some (Inr state_A) \<and>
   take (length (materials (model state_A))) (materials (model state_A)) =
     materials (model state_A) \<and>
   (\<exists>f. objects (model state_A_f) =
          (objects (model state_A))
            [currentGroup state_A := (objects (model state_A) ! currentGroup state_A)
               \<lparr>faces := faces (objects (model state_A) ! currentGroup state_A) @ [f]\<rparr>] \<and>
        faces (objects (model state_A_f) ! currentGroup state_A) =
          faces (objects (model state_A) ! currentGroup state_A) @ [f] \<and>
        material f = currentMaterial state_A)"
proof -
  have h1: "word1 (directive ''usemtl B'') = ''usemtl''"
    by (simp add: word_defs stream_defs Let_def)
  have no_B: "\<not> (\<exists>m \<in> set (materials (model state_A)).
                   name m = word2 (directive ''usemtl B''))"
    by (simp add: word_defs stream_defs Let_def state_A_def Model_init_def Material_new_def)
  have h2: "word1 (directive ''f 1'') = ''f'' \<and>
     object_line no_files ''./'' (directive ''f 1'') state_A = Some (Inr state_A_f)"
    by (simp add: word_defs state_A_def state_A_f_def face_A_def Model_init_def
          object_line_def getline_ok_def GroupObject_new_def Material_new_def face_defs
          stream_defs Let_def)
  then have h3: "word1 (directive ''f 1'') \<noteq> ''usemtl'' \<and>
     object_line no_files ''./'' (directive ''f 1'') state_A = Some (Inr state_A_f)"
    by simp
  have h0: "word1 (directive ''g default'') \<noteq> ''usemtl''"
    by (simp add: word_defs stream_defs Let_def)
  have h4: "defaultObject state_A < length (objects (model state_A)) \<and>
    currentGroup state_A < length (objects (model state_A)) \<and>
    word1 (directive ''usemtl B'') = ''usemtl'' \<and> getline_ok (directive ''usemtl B'') \<and>
    (\<forall>m \<in> set [directive ''g default'']. word1 m \<noteq> ''usemtl'') \<and>
    object_lines no_files ''./'' [directive ''usemtl B'', directive ''g default''] state_A =
      Some (Inr state_A) \<and>
    word1 (directive ''f 1'') = ''f'' \<and>
    object_line no_files ''./'' (directive ''f 1'') state_A = Some (Inr state_A_f)"
    using h2
    by (simp add: word_defs state_A_def Model_init_def object_line_def getline_ok_def
          GroupObject_new_def Material_new_def stream_defs Let_def)
  note T = C6_usemtl_keeps_material [where fs = no_files and path = "''./''" and st = state_A]
  from T [where l = "directive ''usemtl B''", THEN conjunct1, rule_format, OF h1] no_B
  have a: "\<exists>st'. object_line no_files ''./'' (directive ''usemtl B'') state_A = Some (Inr st') \<and>
      model st' = model state_A \<and> currentMaterial st' = currentMaterial state_A"
    by simp
  from T [where l = "directive ''f 1''" and st' = state_A_f,
          THEN conjunct2, THEN conjunct1, rule_format, OF h2]
  have b: "\<exists>f. objects (model state_A_f) =
          (objects (model state_A))
            [currentGroup state_A := (objects (model state_A) ! currentGroup state_A)
               \<lparr>faces := faces (objects (model state_A) ! currentGroup state_A) @ [f]\<rparr>] \<and>
        material f = currentMaterial state_A" .
  from T [where l = "directive ''f 1''" and st' = state_A_f,
          THEN conjunct2, THEN conjunct2, THEN conjunct1, rule_format, OF h3]
  have c: "currentMaterial state_A_f = currentMaterial state_A" .
  from T [where l = "directive ''usemtl B''" and mid = "[directive ''g default'']"
            and sm = state_A and lf = "directive ''f 1''" and st' = state_A_f,
          THEN conjunct2, THEN conjunct2, THEN conjunct2, rule_format, OF h4] no_B
  have d: "take (length (materials (model state_A))) (materials (model state_A)) =
     materials (model state_A) \<and>
   (\<exists>f. objects (model state_A_f) =
          (objects (model state_A))
            [currentGroup state_A := (objects (model state_A) ! currentGroup state_A)
               \<lparr>faces := faces (objects (model state_A) ! currentGroup state_A) @ [f]\<rparr>] \<and>
        faces (objects (model state_A_f) ! currentGroup state_A) =
          faces (objects (model state_A) ! currentGroup state_A) @ [f] \<and>
        material f = currentMaterial state_A)"
    by simp
  from h0 h1 h2 h3 h4 a b c d show ?thesis by blast
qed

text \<open>
  C6 as stated fails: after \<^verbatim>\<open>usemtl A\<close> and the unmatched \<^verbatim>\<open>usemtl B\<close>, the face is
  created with the material \<open>A\<close> (entry 0 of the pool), not without a material.
\<close>

theorem C6_unmatched_usemtl_keeps_A:
  "loadObject usemtl_fs (CHR ''x'') ''./u.obj'' Model_init [] =
     Some (Inr (True,
       \<lparr>objects =
          [\<lparr>faces = [\<lparr>face_vertices = [0], face_normals = [], face_UVWs = [],
                       material = Some 0, faceCenter = Vector3 0 0 0,
                       faceNormal = Vector3 0 0 0\<rparr>],
            objectName = [], groupName = []\<rparr>],
        vertices = [Vector3 0 0 0], normals = [], UVWs = [],
        materials = [Material_new\<lparr>name := ''A''\<rparr>],
        boundingPoints = Some (replicate 8 (Vector3 0 0 0)),
        radius = Some 0, center = Vector3 0 0 0, objectLoaded = True,
        displayList = 0, filename = ''./u.obj''\<rparr>, []))"
  by (simp add: usemtl_fs_def text_file_def Model_init_def load_defs face_defs stream_defs
        mtl_defs Let_def numeral_eq_Suc)


text \<open>
  C7 (as corrected). For each of the seven texture-map directives, when the image file
  named can be opened, its header is complete and its image type is not 2, the line
  returns: the decode has failed, the device is as before, and the slot of the current
  material holds a Texture without pixel data, sizes or device name, as the constructor
  made it. The reading loop goes on with the lines that follow.
\<close>

theorem C7_unsupported_image_attached:
  assumes "word1 l \<in> set [''map_Ka'', ''map_Kd'', ''map_Ks'', ''map_Ke'', ''map_Ns'',
                         ''map_d'', ''map_Bump'']"
    and "fs (path @ word2 l) = Some f"
    and "read_TGA_Header (bytes f) = Some h" and "ImageType h \<noteq> 2"
    and "mtl_material st = Some i" and "i < length (materials (mtl_model st))"
    and "getline_ok l"
  shows "\<exists>st'. material_line fs path l st = Some (Inr st') \<and>
           map_slot (word1 l) (materials (mtl_model st') ! i) = Some Texture_init \<and>
           mtl_gl st' = mtl_gl st \<and>
           material_lines fs path (l # ls) st = material_lines fs path ls st'"
proof -
  from material_line_map [where fs = fs and path = path and l = l and st = st, OF assms(1-6)]
  obtain st' where
    st': "material_line fs path l st = Some (Inr st')"
         "map_slot (word1 l) (materials (mtl_model st') ! i) = Some Texture_init"
         "mtl_gl st' = mtl_gl st" by blast
  from st'(1) assms(7) have "material_lines fs path (l # ls) st = material_lines fs path ls st'"
    by simp
  with st' show ?thesis by blast
qed

text \<open>The theorem at a \<^verbatim>\<open>map_Kd\<close> line that names the image of type 10.\<close>

theorem C7_unsupported_image_attached_witness:
  "word1 (directive ''map_Kd t.tga'') \<in>
     set [''map_Ka'', ''map_Kd'', ''map_Ks'', ''map_Ke'', ''map_Ns'', ''map_d'', ''map_Bump''] \<and>
   map_fs (''./'' @ word2 (directive ''map_Kd t.tga'')) =
     Some (binary_file [0, 0, 10, 0, 0, 0, 0, 0, 0, 0, 0, 0, 1, 0, 1, 0, 24, 0, 1, 2, 3]) \<and>
   read_TGA_Header
     (bytes (binary_file [0, 0, 10, 0, 0, 0, 0, 0, 0, 0, 0, 0, 1, 0, 1, 0, 24, 0, 1, 2, 3])) =
     Some rle_header \<and>
   ImageType rle_header \<noteq> 2 \<and> mtl_material mtl_state_A = Some 0 \<and>
   0 < length (materials (mtl_model mtl_state_A)) \<and> getline_ok (directive ''map_Kd t.tga'') \<and>
   (\<exists>st'. material_line map_fs ''./'' (directive ''map_Kd t.tga'') mtl_state_A = Some (Inr st') \<and>
      map_slot (word1 (directive ''map_Kd t.tga'')) (materials (mtl_model st') ! 0) =
        Some Texture_init \<and>
      mtl_gl st' = mtl_gl mtl_state_A \<and>
      material_lines map_fs ''./'' [directive ''map_Kd t.tga'', directive ''newmtl B''] mtl_state_A =
        material_lines map_fs ''./'' [directive ''newmtl B''] st')"
proof -
  have h1: "word1 (directive ''map_Kd t.tga'') \<in>
     set [''map_Ka'', ''map_Kd'', ''map_Ks'', ''map_Ke'', ''map_Ns'', ''map_d'', ''map_Bump'']"
    by (simp add: word_defs stream_defs Let_def)
  have h2: "map_fs (''./'' @ word2 (directive ''map_Kd t.tga'')) =
     Some (binary_file [0, 0, 10, 0, 0, 0, 0, 0, 0, 0, 0, 0, 1, 0, 1, 0, 24, 0, 1, 2, 3])"
    by (simp add: word_defs stream_defs Let_def map_fs_def)
  have h3: "read_TGA_Header
     (bytes (binary_file [0, 0, 10, 0, 0, 0, 0, 0, 0, 0, 0, 0, 1, 0, 1, 0, 24, 0, 1, 2, 3])) =
     Some rle_header"
    by (simp add: binary_file_def read_TGA_Header_def sizeof_TGA_Header_def GLshort_of_def
          rle_header_def)
  have h4: "ImageType rle_header \<noteq> 2" by (simp add: rle_header_def)
  have h5: "mtl_material mtl_state_A = Some 0" by (simp add: mtl_state_A_def)
  have h6: "0 < length (materials (mtl_model mtl_state_A))" by (simp add: mtl_state_A_def)
  have h7: "getline_ok (directive ''map_Kd t.tga'')" by (simp add: getline_ok_def directive_def)
  from C7_unsupported_image_attached
         [where fs = map_fs and path = "''./''" and l = "directive ''map_Kd t.tga''"
            and st = mtl_state_A and ls = "[directive ''newmtl B'']",
          OF h1 h2 h3 h4 h5 h6 h7]
       h1 h2 h3 h4 h5 h6 h7
  show ?thesis by blast
qed

text \<open>
  C7 as stated fails: loading the library attaches a Texture to the diffuse slot of \<open>A\<close>
  although the image has type 10 (and the \<^verbatim>\<open>Ns\<close> line after it is still read).
\<close>

theorem C7_texture_attached_anyway:
  "loadMaterials map_fs ''./m.mtl'' Model_init [] =
     Some (Inr (Model_init\<lparr>materials :=
       [Material_new\<lparr>name := ''A'', diffuseMap := Some Texture_init, shininess := 5\<rparr>]\<rparr>, [])) \<and>
   diffuseMap (Material_new\<lparr>name := ''A'', diffuseMap := Some Texture_init, shininess := 5\<rparr>)
     \<noteq> None"
  by (simp add: map_fs_def text_file_def binary_file_def Model_init_def Texture_init_def
        directory_of_def is_separator_def getline_ok_def mtl_defs tga_defs stream_defs Let_def)


text \<open>
  C9. Start the reading loop in a state whose \<^verbatim>\<open>defaultObject\<close> is an object of the
  model, and let any lines be read (with any number of groups). After a \<^verbatim>\<open>g default\<close>
  line and any lines that are not \<^verbatim>\<open>g\<close> lines, the current group is that default object,
  and an \<^verbatim>\<open>f\<close> line that returns pushes its face onto the default object and leaves the
  other objects as they were. A \<^verbatim>\<open>g\<close> line with another name appends a new, empty
  object with that name and makes it the current group, whatever the names of the objects
  that exist.
\<close>

theorem C9_default_group:
  "(object_lines fs path pre init = Some (Inr st) \<and>
    defaultObject init < length (objects (model init)) \<and>
    word1 l = ''g'' \<and> word2 l = ''default'' \<and> getline_ok l \<and>
    (\<forall>m \<in> set mid. word1 m \<noteq> ''g'') \<and>
    object_lines fs path (l # mid) st = Some (Inr sm) \<and>
    word1 lf = ''f'' \<and> object_line fs path lf sm = Some (Inr st') \<longrightarrow>
      currentGroup sm = defaultObject init \<and>
      (\<exists>f. objects (model st') =
             (objects (model sm))
               [defaultObject init := (objects (model sm) ! defaultObject init)
                  \<lparr>faces := faces (objects (model sm) ! defaultObject init) @ [f]\<rparr>])) \<and>
   (word1 l = ''g'' \<and> word2 l \<noteq> ''default'' \<longrightarrow>
      object_line fs path l st =
        Some (Inr (st\<lparr>currentGroup := length (objects (model st)),
                      model := (model st)\<lparr>objects := objects (model st) @
                        [\<lparr>faces = [], objectName = word2 l, groupName = word3 l\<rparr>]\<rparr>\<rparr>)))"
proof (intro conjI impI)
  assume h: "object_lines fs path pre init = Some (Inr st) \<and>
    defaultObject init < length (objects (model init)) \<and>
    word1 l = ''g'' \<and> word2 l = ''default'' \<and> getline_ok l \<and>
    (\<forall>m \<in> set mid. word1 m \<noteq> ''g'') \<and>
    object_lines fs path (l # mid) st = Some (Inr sm) \<and>
    word1 lf = ''f'' \<and> object_line fs path lf sm = Some (Inr st')"
  from h object_lines_frame [of fs path pre init st] have
    d: "defaultObject st = defaultObject init" by blast
  let ?sg = "st\<lparr>currentGroup := defaultObject st\<rparr>"
  from h have g: "object_line fs path l st = Some (Inr ?sg)"
    by (intro object_line_g_default) auto
  moreover from h have "getline_ok l" "object_lines fs path (l # mid) st = Some (Inr sm)"
    by blast+
  ultimately have "object_lines fs path mid ?sg = Some (Inr sm)"
    by simp
  with h object_lines_keep_group [of mid fs path ?sg sm] have
    "currentGroup sm = currentGroup ?sg" by blast
  with d show cur: "currentGroup sm = defaultObject init" by simp
  from h object_line_face_pushes [of lf fs path sm st'] obtain f where
    "model st' = push_face (model sm) (currentGroup sm) f" by blast
  with cur show "\<exists>f. objects (model st') =
             (objects (model sm))
               [defaultObject init := (objects (model sm) ! defaultObject init)
                  \<lparr>faces := faces (objects (model sm) ! defaultObject init) @ [f]\<rparr>]"
    by (auto simp: push_face_def)
next
  assume "word1 l = ''g'' \<and> word2 l \<noteq> ''default''"
  then show "object_line fs path l st =
        Some (Inr (st\<lparr>currentGroup := length (objects (model st)),
                      model := (model st)\<lparr>objects := objects (model st) @
                        [\<lparr>faces = [], objectName = word2 l, groupName = word3 l\<rparr>]\<rparr>\<rparr>))"
    by (intro object_line_g_new) auto
qed

text \<open>
  The theorem after the lines \<^verbatim>\<open>g a b\<close>, \<^verbatim>\<open>f 1\<close>, \<^verbatim>\<open>g a\<close>: after \<^verbatim>\<open>g default\<close> and
  a \<^verbatim>\<open>usemtl\<close> line the face of \<^verbatim>\<open>f 1\<close> goes to the default object, and a third
  \<^verbatim>\<open>g a\<close> appends a third object.
\<close>

theorem C9_default_group_witness:
  "object_lines no_files ''./''
     [directive ''g a b'', directive ''f 1'', directive ''g a''] state_A = Some (Inr state_groups) \<and>
   defaultObject state_A < length (objects (model state_A)) \<and>
   word1 (directive ''g default'') = ''g'' \<and> word2 (directive ''g default'') = ''default'' \<and>
   getline_ok (directive ''g default'') \<and>
   word1 (directive ''usemtl A'') \<noteq> ''g'' \<and>
   object_lines no_files ''./'' [directive ''g default'', directive ''usemtl A''] state_groups =
     Some (Inr state_groups_default) \<and>
   word1 (directive ''f 1'') = ''f'' \<and>
   object_line no_files ''./'' (directive ''f 1'') state_groups_default =
     Some (Inr state_groups_f) \<and>
   currentGroup state_groups_default = defaultObject state_A \<and>
   (\<exists>f. objects (model state_groups_f) =
          (objects (model state_groups_default))
            [defaultObject state_A :=
               (objects (model state_groups_default) ! defaultObject state_A)
               \<lparr>faces :=
                  faces (objects (model state_groups_default) ! defaultObject state_A) @ [f]\<rparr>]) \<and>
   word1 (directive ''g a'') = ''g'' \<and> word2 (directive ''g a'') \<noteq> ''default'' \<and>
   object_line no_files ''./'' (directive ''g a'') state_groups =
     Some (Inr (state_groups\<lparr>currentGroup := length (objects (model state_groups)),
        model := (model state_groups)\<lparr>objects := objects (model state_groups) @
          [\<lparr>faces = [], objectName = word2 (directive ''g a''),
            groupName = word3 (directive ''g a'')\<rparr>]\<rparr>\<rparr>))"
proof -
  have h1: "object_lines no_files ''./''
     [directive ''g a b'', directive ''f 1'', directive ''g a''] state_A = Some (Inr state_groups) \<and>
   defaultObject state_A < length (objects (model state_A)) \<and>
   word1 (directive ''g default'') = ''g'' \<and> word2 (directive ''g default'') = ''default'' \<and>
   getline_ok (directive ''g default'') \<and>
   (\<forall>m \<in> set [directive ''usemtl A'']. word1 m \<noteq> ''g'') \<and>
   object_lines no_files ''./'' [directive ''g default'', directive ''usemtl A''] state_groups =
     Some (Inr state_groups_default) \<and>
   word1 (directive ''f 1'') = ''f'' \<and>
   object_line no_files ''./'' (directive ''f 1'') state_groups_default =
     Some (Inr state_groups_f)"
    by (simp add: word_defs state_defs object_line_def getline_ok_def face_defs stream_defs
          Let_def)
  have h2: "word1 (directive ''g a'') = ''g'' \<and> word2 (directive ''g a'') \<noteq> ''default''"
    by (simp add: word_defs stream_defs Let_def)
  note T = C9_default_group
    [where fs = no_files and path = "''./''" and init = state_A and st = state_groups]
  from T [where l = "directive ''g default''" and lf = "directive ''f 1''"
            and mid = "[directive ''usemtl A'']" and sm = state_groups_default
            and st' = state_groups_f
            and pre = "[directive ''g a b'', directive ''f 1'', directive ''g a'']",
          THEN conjunct1, rule_format, OF h1]
  have a: "currentGroup state_groups_default = defaultObject state_A \<and>
   (\<exists>f. objects (model state_groups_f) =
          (objects (model state_groups_default))
            [defaultObject state_A :=
               (objects (model state_groups_default) ! defaultObject state_A)
               \<lparr>faces :=
                  faces (objects (model state_groups_default) ! defaultObject state_A) @ [f]\<rparr>])" .
  from T [where l = "directive ''g a''", THEN conjunct2, rule_format, OF h2]
  have b: "object_line no_files ''./'' (directive ''g a'') state_groups =
     Some (Inr (state_groups\<lparr>currentGroup := length (objects (model state_groups)),
        model := (model state_groups)\<lparr>objects := objects (model state_groups) @
          [\<lparr>faces = [], objectName = word2 (directive ''g a''),
            groupName = word3 (directive ''g a'')\<rparr>]\<rparr>\<rparr>))" .
  have h0: "word1 (directive ''usemtl A'') \<noteq> ''g''"
    by (simp add: word_defs stream_defs Let_def)
  from h0 h1 h2 a b show ?thesis by blast
qed

text \<open>
  C10. When a library whose lines are all read is loaded, the names of the pool afterwards
  are the names it had followed by the name of every \<^verbatim>\<open>newmtl\<close> line of the library, in
  order, equal names included, and the entries the pool had are unchanged; a single
  \<^verbatim>\<open>newmtl\<close> line appends a new default material with its name whatever names the pool
  holds. In a state of the reading loop whose group indices are valid, after a
  \<^verbatim>\<open>usemtl\<close> line whose name is the name of entry \<open>k\<close> and of no entry before it, and any
  lines that are not \<^verbatim>\<open>usemtl\<close> lines, the pool still starts with the entries it had, and
  the face of an \<^verbatim>\<open>f\<close> line that returns is appended to the current group with entry
  \<open>k\<close> as its material.
\<close>

theorem C10_duplicate_names:
  "(fs in_filename = Some lib \<and> (\<forall>m \<in> set (lines lib). getline_ok m) \<and>
    loadMaterials fs in_filename this dev = Some (Inr (this', dev')) \<longrightarrow>
      map name (materials this') =
        map name (materials this) @ map word2 [m \<leftarrow> lines lib. word1 m = ''newmtl''] \<and>
      take (length (materials this)) (materials this') = materials this) \<and>
   (word1 l = ''newmtl'' \<longrightarrow>
      material_line fs path l ms =
        Some (Inr (ms\<lparr>mtl_material := Some (length (materials (mtl_model ms))),
                      mtl_model := (mtl_model ms)
                        \<lparr>materials := materials (mtl_model ms) @
                           [Material_new\<lparr>name := word2 l\<rparr>]\<rparr>\<rparr>))) \<and>
   (defaultObject st < length (objects (model st)) \<and>
    currentGroup st < length (objects (model st)) \<and>
    word1 l = ''usemtl'' \<and> getline_ok l \<and>
    k < length (materials (model st)) \<and> name (materials (model st) ! k) = word2 l \<and>
    (\<forall>j<k. name (materials (model st) ! j) \<noteq> word2 l) \<and>
    (\<forall>m \<in> set mid. word1 m \<noteq> ''usemtl'') \<and>
    object_lines fs path (l # mid) st = Some (Inr sm) \<and>
    word1 lf = ''f'' \<and> object_line fs path lf sm = Some (Inr st') \<longrightarrow>
      currentGroup sm < length (objects (model sm)) \<and>
      take (length (materials (model st))) (materials (model sm)) = materials (model st) \<and>
      (\<exists>f. objects (model st') =
             (objects (model sm))
               [currentGroup sm := (objects (model sm) ! currentGroup sm)
                  \<lparr>faces := faces (objects (model sm) ! currentGroup sm) @ [f]\<rparr>] \<and>
           faces (objects (model st') ! currentGroup sm) =
             faces (objects (model sm) ! currentGroup sm) @ [f] \<and>
           material f = Some k))"
proof (intro conjI impI)
  assume h: "fs in_filename = Some lib \<and> (\<forall>m \<in> set (lines lib). getline_ok m) \<and>
    loadMaterials fs in_filename this dev = Some (Inr (this', dev'))"
  then obtain path st' where
    run: "material_lines fs path (lines lib)
       \<lparr>mtl_model = this, mtl_gl = dev, mtl_material = None\<rparr> = Some (Inr st')" and
    t: "this' = mtl_model st'"
    by (auto simp: loadMaterials_def split: sum.splits option.splits)
  from h have ok: "\<forall>m \<in> set (lines lib). getline_ok m" by blast
  from material_lines_names [OF run ok, of "length (materials this)"] t
  show "map name (materials this') =
        map name (materials this) @ map word2 [m \<leftarrow> lines lib. word1 m = ''newmtl'']"
    by simp
  from h loadMaterials_keeps [of fs in_filename this dev this' dev']
  show "take (length (materials this)) (materials this') = materials this" by blast
next
  assume "word1 l = ''newmtl''"
  then show "material_line fs path l ms =
        Some (Inr (ms\<lparr>mtl_material := Some (length (materials (mtl_model ms))),
                      mtl_model := (mtl_model ms)
                        \<lparr>materials := materials (mtl_model ms) @
                           [Material_new\<lparr>name := word2 l\<rparr>]\<rparr>\<rparr>))"
    by (rule material_line_newmtl)
next
  assume h: "defaultObject st < length (objects (model st)) \<and>
    currentGroup st < length (objects (model st)) \<and>
    word1 l = ''usemtl'' \<and> getline_ok l \<and>
    k < length (materials (model st)) \<and> name (materials (model st) ! k) = word2 l \<and>
    (\<forall>j<k. name (materials (model st) ! j) \<noteq> word2 l) \<and>
    (\<forall>m \<in> set mid. word1 m \<noteq> ''usemtl'') \<and>
    object_lines fs path (l # mid) st = Some (Inr sm) \<and>
    word1 lf = ''f'' \<and> object_line fs path lf sm = Some (Inr st')"
  let ?ms = "materials (model st)"
  from h have "usemtl_loop ?ms 0 (word2 l) (currentMaterial st) = Some (0 + k)"
    by (intro usemtl_loop_first_match) auto
  with h have line: "object_line fs path l st = Some (Inr (st\<lparr>currentMaterial := Some k\<rparr>))"
    by (simp add: object_line_usemtl)
  moreover from h have ok: "getline_ok l" and
    run: "object_lines fs path (l # mid) st = Some (Inr sm)" by blast+
  ultimately have mid: "object_lines fs path mid (st\<lparr>currentMaterial := Some k\<rparr>) = Some (Inr sm)"
    by simp
  from h object_lines_valid [OF run] show
    v: "currentGroup sm < length (objects (model sm))" by blast
  from object_lines_materials [OF run] show
    "take (length ?ms) (materials (model sm)) = ?ms" .
  from h object_lines_keep_material [OF _ mid] have
    cm: "currentMaterial sm = Some k" by simp
  from h object_line_face_explicit [of lf fs path sm st'] obtain f where
    f: "objects (model st') =
          (objects (model sm))
            [currentGroup sm := (objects (model sm) ! currentGroup sm)
               \<lparr>faces := faces (objects (model sm) ! currentGroup sm) @ [f]\<rparr>]"
       "material f = currentMaterial sm" by blast
  from f(1) v have "faces (objects (model st') ! currentGroup sm) =
             faces (objects (model sm) ! currentGroup sm) @ [f]" by simp
  with f cm show "\<exists>f. objects (model st') =
             (objects (model sm))
               [currentGroup sm := (objects (model sm) ! currentGroup sm)
                  \<lparr>faces := faces (objects (model sm) ! currentGroup sm) @ [f]\<rparr>] \<and>
           faces (objects (model st') ! currentGroup sm) =
             faces (objects (model sm) ! currentGroup sm) @ [f] \<and>
           material f = Some k"
    by auto
qed

text \<open>
  The theorem at the library that defines \<open>A\<close> twice (the pool gets the names \<open>A\<close>,
  \<open>A\<close>), at a pool that already has a material \<open>A\<close> (for \<^verbatim>\<open>newmtl A\<close>), and at the state
  with two materials \<open>A\<close>: after \<^verbatim>\<open>usemtl A\<close> and \<^verbatim>\<open>g default\<close> the face of \<^verbatim>\<open>f 1\<close> is
  bound to entry 0.
\<close>

theorem C10_duplicate_names_witness:
  "duplicate_fs ''./d.mtl'' = Some duplicate_lib \<and>
   getline_ok (directive ''newmtl A'') \<and>
   loadMaterials duplicate_fs ''./d.mtl'' Model_init [] = Some (Inr (model_AA, [])) \<and>
   map name (materials model_AA) =
     map name (materials Model_init) @
     map word2 [m \<leftarrow> lines duplicate_lib. word1 m = ''newmtl''] \<and>
   map name (materials model_AA) = [''A'', ''A''] \<and>
   take (length (materials Model_init)) (materials model_AA) = materials Model_init \<and>
   word1 (directive ''newmtl A'') = ''newmtl'' \<and>
   material_line no_files ''./'' (directive ''newmtl A'') mtl_state_A =
     Some (Inr (mtl_state_A\<lparr>mtl_material := Some (length (materials (mtl_model mtl_state_A))),
        mtl_model := (mtl_model mtl_state_A)
          \<lparr>materials := materials (mtl_model mtl_state_A) @
             [Material_new\<lparr>name := word2 (directive ''newmtl A'')\<rparr>]\<rparr>\<rparr>)) \<and>
   name (materials (mtl_model mtl_state_A) ! 0) = word2 (directive ''newmtl A'') \<and>
   defaultObject state_AA < length (objects (model state_AA)) \<and>
   currentGroup state_AA < length (objects (model state_AA)) \<and>
   word1 (directive ''usemtl A'') = ''usemtl'' \<and> getline_ok (directive ''usemtl A'') \<and>
   0 < length (materials (model state_AA)) \<and>
   name (materials (model state_AA) ! 0) = word2 (directive ''usemtl A'') \<and>
   name (materials (model state_AA) ! 1) = word2 (directive ''usemtl A'') \<and>
   word1 (directive ''g default'') \<noteq> ''usemtl'' \<and>
   object_lines no_files ''./'' [directive ''usemtl A'', directive ''g default''] state_AA =
     Some (Inr state_AA_used) \<and>
   word1 (directive ''f 1'') = ''f'' \<and>
   object_line no_files ''./'' (directive ''f 1'') state_AA_used = Some (Inr state_AA_f) \<and>
   currentGroup state_AA_used < length (objects (model state_AA_used)) \<and>
   take (length (materials (model state_AA))) (materials (model state_AA_used)) =
     materials (model state_AA) \<and>
   (\<exists>f. objects (model state_AA_f) =
          (objects (model state_AA_used))
            [currentGroup state_AA_used :=
               (objects (model state_AA_used) ! currentGroup state_AA_used)
               \<lparr>faces :=
                  faces (objects (model state_AA_used) ! currentGroup state_AA_used) @ [f]\<rparr>] \<and>
        faces (objects (model state_AA_f) ! currentGroup state_AA_used) =
          faces (objects (model state_AA_used) ! currentGroup state_AA_used) @ [f] \<and>
        material f = Some 0)"
proof -
  have lib: "duplicate_fs ''./d.mtl'' = Some duplicate_lib"
    by (simp add: duplicate_fs_def duplicate_lib_def)
  have ok: "\<forall>m \<in> set (lines duplicate_lib). getline_ok m"
    by (simp add: duplicate_lib_def text_file_def getline_ok_def)
  have run: "loadMaterials duplicate_fs ''./d.mtl'' Model_init [] = Some (Inr (model_AA, []))"
    by (simp add: duplicate_fs_def text_file_def Model_init_def model_AA_def
          directory_of_def is_separator_def getline_ok_def mtl_defs stream_defs Let_def)
  have names: "map name (materials model_AA) = [''A'', ''A'']"
    by (simp add: model_AA_def Model_init_def Material_new_def)
  have h1: "word1 (directive ''newmtl A'') = ''newmtl''"
    by (simp add: word_defs stream_defs Let_def)
  have ok1: "getline_ok (directive ''newmtl A'')"
    by (simp add: getline_ok_def directive_def)
  have n1: "name (materials (mtl_model mtl_state_A) ! 0) = word2 (directive ''newmtl A'')"
    by (simp add: word_defs stream_defs Let_def mtl_state_A_def Model_init_def Material_new_def)
  have n2: "name (materials (model state_AA) ! 1) = word2 (directive ''usemtl A'')"
    by (simp add: word_defs stream_defs Let_def state_defs)
  have h0: "word1 (directive ''g default'') \<noteq> ''usemtl''"
    by (simp add: word_defs stream_defs Let_def)
  have h3: "defaultObject state_AA < length (objects (model state_AA)) \<and>
    currentGroup state_AA < length (objects (model state_AA)) \<and>
    word1 (directive ''usemtl A'') = ''usemtl'' \<and> getline_ok (directive ''usemtl A'') \<and>
    0 < length (materials (model state_AA)) \<and>
    name (materials (model state_AA) ! 0) = word2 (directive ''usemtl A'') \<and>
    (\<forall>j<0. name (materials (model state_AA) ! j) \<noteq> word2 (directive ''usemtl A'')) \<and>
    (\<forall>m \<in> set [directive ''g default'']. word1 m \<noteq> ''usemtl'') \<and>
    object_lines no_files ''./'' [directive ''usemtl A'', directive ''g default''] state_AA =
      Some (Inr state_AA_used) \<and>
    word1 (directive ''f 1'') = ''f'' \<and>
    object_line no_files ''./'' (directive ''f 1'') state_AA_used = Some (Inr state_AA_f)"
    by (simp add: word_defs state_defs state_AA_used_def state_AA_f_def object_line_def
          getline_ok_def face_defs stream_defs Let_def)
  note T = C10_duplicate_names [where path = "''./''"]
  from T [where fs = duplicate_fs and in_filename = "''./d.mtl''" and lib = duplicate_lib
            and this = Model_init and dev = "[]" and this' = model_AA and dev' = "[]",
          THEN conjunct1, rule_format] lib ok run
  have a: "map name (materials model_AA) =
     map name (materials Model_init) @
     map word2 [m \<leftarrow> lines duplicate_lib. word1 m = ''newmtl''] \<and>
   take (length (materials Model_init)) (materials model_AA) = materials Model_init"
    by blast
  from T [where fs = no_files and l = "directive ''newmtl A''" and ms = mtl_state_A,
          THEN conjunct2, THEN conjunct1, rule_format, OF h1]
  have b: "material_line no_files ''./'' (directive ''newmtl A'') mtl_state_A =
     Some (Inr (mtl_state_A\<lparr>mtl_material := Some (length (materials (mtl_model mtl_state_A))),
        mtl_model := (mtl_model mtl_state_A)
          \<lparr>materials := materials (mtl_model mtl_state_A) @
             [Material_new\<lparr>name := word2 (directive ''newmtl A'')\<rparr>]\<rparr>\<rparr>))" .
  from T [where fs = no_files and l = "directive ''usemtl A''" and st = state_AA and k = 0
            and mid = "[directive ''g default'']" and sm = state_AA_used
            and lf = "directive ''f 1''" and st' = state_AA_f,
          THEN conjunct2, THEN conjunct2, rule_format, OF h3]
  have c: "currentGroup state_AA_used < length (objects (model state_AA_used)) \<and>
   take (length (materials (model state_AA))) (materials (model state_AA_used)) =
     materials (model state_AA) \<and>
   (\<exists>f. objects (model state_AA_f) =
          (objects (model state_AA_used))
            [currentGroup state_AA_used :=
               (objects (model state_AA_used) ! currentGroup state_AA_used)
               \<lparr>faces :=
                  faces (objects (model state_AA_used) ! currentGroup state_AA_used) @ [f]\<rparr>] \<and>
        faces (objects (model state_AA_f) ! currentGroup state_AA_used) =
          faces (objects (model state_AA_used) ! currentGroup state_AA_used) @ [f] \<and>
        material f = Some 0)" .
  from lib ok1 run names h0 h1 n1 n2 h3 a b c show ?thesis by blast
qed

text \<open>
  A whole load: the library defines \<open>A\<close> twice, both entries are in the pool with their
  own colours, and the face after \<^verbatim>\<open>usemtl A\<close> is bound to entry 0.
\<close>

lemma duplicate_names_loaded:
  "loadObject duplicate_fs (CHR ''x'') ''./d.obj'' Model_init [] =
     Some (Inr (True,
       \<lparr>objects =
          [\<lparr>faces = [face_A], objectName = [], groupName = []\<rparr>],
        vertices = [Vector3 0 0 0], normals = [], UVWs = [],
        materials = [Material_new\<lparr>name := ''A'', Kd := [1, 0, 0, 1]\<rparr>,
                     Material_new\<lparr>name := ''A'', Kd := [0, 1, 0, 1]\<rparr>],
        boundingPoints = Some (replicate 8 (Vector3 0 0 0)),
        radius = Some 0, center = Vector3 0 0 0, objectLoaded = True,
        displayList = 0, filename = ''./d.obj''\<rparr>, []))"
  by (simp add: duplicate_fs_def text_file_def Model_init_def face_A_def load_defs face_defs
        stream_defs mtl_defs Let_def numeral_eq_Suc)

end
